theory Spec2Isabelle
  imports Complex_Main "HOL-Library.Char_ord" "HOL-Library.List_Lexorder"
begin

section \<open>JavaScript strings\<close>

text \<open>
  A JavaScript string is a sequence of UTF-16 code units. The model uses \<open>string\<close>
  and reads each \<open>char\<close> as one code unit below 256, so \<open>CHR 0xA0\<close> is the
  no-break space and \<open>CHR 0xD7\<close> the multiplication sign.
\<close>

definition isWhiteSpace :: "char \<Rightarrow> bool" where
  \<comment> \<open>the characters \<open>String.prototype.trim\<close> removes and \<open>\s\<close> matches\<close>
  "isWhiteSpace c \<longleftrightarrow>
     c \<in> {CHR 0x09, CHR 0x0A, CHR 0x0B, CHR 0x0C, CHR 0x0D, CHR 0x20, CHR 0xA0}"

definition isDigit :: "char \<Rightarrow> bool" where
  \<comment> \<open>\<open>\d\<close>\<close>
  "isDigit c \<longleftrightarrow> CHR ''0'' \<le> c \<and> c \<le> CHR ''9''"

definition js_trim :: "string \<Rightarrow> string" where
  "js_trim s = rev (dropWhile isWhiteSpace (rev (dropWhile isWhiteSpace s)))"

definition js_startsWith :: "string \<Rightarrow> string \<Rightarrow> bool" where
  "js_startsWith p s \<longleftrightarrow> take (length p) s = p"

definition js_endsWith :: "string \<Rightarrow> string \<Rightarrow> bool" where
  "js_endsWith p s \<longleftrightarrow> length p \<le> length s \<and> drop (length s - length p) s = p"

fun js_includes :: "string \<Rightarrow> string \<Rightarrow> bool" where
  "js_includes p [] = (p = [])"
| "js_includes p (c # cs) = (js_startsWith p (c # cs) \<or> js_includes p cs)"

fun js_split :: "char \<Rightarrow> string \<Rightarrow> string list" where
  \<comment> \<open>\<open>s.split(sep)\<close> for a one-character separator\<close>
  "js_split sep [] = [[]]"
| "js_split sep (c # cs) =
     (if c = sep then [] # js_split sep cs
      else (case js_split sep cs of w # ws \<Rightarrow> (c # w) # ws | [] \<Rightarrow> [[c]]))"

fun js_join :: "string \<Rightarrow> string list \<Rightarrow> string" where
  "js_join sep [] = []"
| "js_join sep [x] = x"
| "js_join sep (x # y # ys) = x @ sep @ js_join sep (y # ys)"

definition elemAt :: "string list \<Rightarrow> nat \<Rightarrow> string" where
  \<comment> \<open>\<open>xs[i] || ""\<close>: an index out of range reads \<open>undefined\<close>\<close>
  "elemAt xs i = (if i < length xs then xs ! i else [])"

definition indexOf :: "string list \<Rightarrow> string \<Rightarrow> nat option" where
  \<comment> \<open>\<open>xs.indexOf(x)\<close>, with \<open>None\<close> for -1\<close>
  "indexOf xs x = (if x \<in> set xs then Some (length (takeWhile (\<lambda>y. y \<noteq> x) xs)) else None)"

section \<open>JavaScript objects used as dictionaries\<close>

text \<open>
  An object literal \<open>{}\<close> used as a dictionary is modelled by its own string keys. It
  also inherits the members of \<open>Object.prototype\<close>, whose names are
  \<open>objectPrototypeKeys\<close>: reading one of these names from a dictionary that has no own
  key of that name yields the inherited member (a function, or the prototype object
  for \<open>__proto__\<close>), the operator \<open>in\<close> finds it, and assigning a string to
  \<open>__proto__\<close> calls the inherited setter, which ignores it and creates no key.
\<close>

definition objectPrototypeKeys :: "string list" where
  "objectPrototypeKeys =
    [''constructor'', ''__defineGetter__'', ''__defineSetter__'', ''hasOwnProperty'',
     ''__lookupGetter__'', ''__lookupSetter__'', ''isPrototypeOf'', ''propertyIsEnumerable'',
     ''toString'', ''valueOf'', ''__proto__'', ''toLocaleString'']"

definition assignKey :: "(string \<rightharpoonup> string) \<Rightarrow> string \<Rightarrow> string \<Rightarrow> (string \<rightharpoonup> string)" where
  \<comment> \<open>\<open>obj[key] = v\<close> for a string \<open>v\<close>\<close>
  "assignKey obj key v = (if key = ''__proto__'' then obj else obj(key \<mapsto> v))"

definition inheritedText :: "string \<Rightarrow> string" where
  \<comment> \<open>the string of the member of \<open>Object.prototype\<close> of that name, as
      \<open>Array.prototype.join\<close> prints it; a built-in function in the form V8 gives it\<close>
  "inheritedText name =
     (if name = ''__proto__'' then ''[object Object]''
      else if name = ''constructor'' then ''function Object() { [native code] }''
      else ''function '' @ name @ ''() { [native code] }'')"

datatype error =
    FileIsEmpty \<comment> \<open>\<open>new Error("File is empty")\<close>\<close>
  | TypeError \<comment> \<open>thrown when a value that is no function is called, or a value that is
      not iterable is destructured\<close>

section \<open>The file handler\<close>

type_synonym LedesRow = "string \<rightharpoonup> string"

record LedesData =
  headers :: "string list"
  rows :: "LedesRow list"

definition LEDES_HEADERS :: "string list" where
  "LEDES_HEADERS =
    [''INVOICE_DATE'', ''INVOICE_NUMBER'', ''CLIENT_MATTER_ID'', ''INVOICE_TOTAL'',
     ''INVOICE_DESCRIPTION'', ''LAW_FIRM_MATTER_ID'', ''BILLING_START_DATE'',
     ''BILLING_END_DATE'', ''INVOICE_TAX_TOTAL'', ''INVOICE_NET_TOTAL'',
     ''INVOICE_CURRENCY'', ''INVOICE_TAX_CURRENCY'', ''INVOICE_REPORTED_TAX_TOTAL'',
     ''LINE_ITEM_NUMBER'', ''LINE_ITEM_NUMBER_OF_UNITS'', ''LINE_ITEM_DATE'',
     ''LINE_ITEM_UNIT_COST'', ''LINE_ITEM_ADJUSTMENT_AMOUNT'', ''LINE_ITEM_TOTAL'',
     ''LINE_ITEM_TAX_TOTAL'', ''LINE_ITEM_TAX_RATE'', ''LINE_ITEM_DESCRIPTION'',
     ''LINE_ITEM_TYPE'', ''LINE_ITEM_EXPENSE_TYPE'', ''LINE_ITEM_TASK_CODE'',
     ''LINE_ITEM_ACTIVITY_CODE'', ''LINE_ITEM_LAWYER_ID'', ''LINE_ITEM_EXP_DESCRIPTION'',
     ''LAW_FIRM_NAME'', ''LAW_FIRM_ADDRESS_1'', ''LAW_FIRM_ADDRESS_2'', ''LAW_FIRM_CITY'',
     ''LAW_FIRM_STATEorREGION'', ''LAW_FIRM_POSTCODE'', ''LAW_FIRM_COUNTRY'',
     ''LAW_FIRM_PHONE'', ''LAW_FIRM_FAX'', ''LAW_FIRM_EMAIL'', ''LAW_FIRM_REGISTRATION_ID'',
     ''CLIENT_NAME'', ''CLIENT_ADDRESS_1'', ''CLIENT_ADDRESS_2'', ''CLIENT_CITY'',
     ''CLIENT_STATEorREGION'', ''CLIENT_POSTCODE'', ''CLIENT_COUNTRY'', ''CLIENT_PHONE'',
     ''CLIENT_FAX'', ''CLIENT_EMAIL'', ''CLIENT_REGISTRATION_ID'', ''RESERVED1'',
     ''RESERVED2'', ''RESERVED3'']"

definition isVersionLine :: "string \<Rightarrow> bool" where
  \<comment> \<open>\<open>/^LEDES98BI\s+V\d+\[\]$/\<close>\<close>
  "isVersionLine s \<longleftrightarrow>
     js_startsWith ''LEDES98BI'' s \<and>
     (let r = drop 9 s; r1 = dropWhile isWhiteSpace r in
      r1 \<noteq> r \<and>
      (case r1 of
         [] \<Rightarrow> False
       | c # r2 \<Rightarrow> c = CHR ''V'' \<and>
           (let r3 = dropWhile isDigit r2 in r3 \<noteq> r2 \<and> r3 = ''[]'')))"

definition nonBlankLines :: "string \<Rightarrow> string list" where
  \<comment> \<open>\<open>content.split("\n").filter((line) => line.trim())\<close>\<close>
  "nonBlankLines content = filter (\<lambda>line. js_trim line \<noteq> []) (js_split CHR 0x0A content)"

fun findHeaderLine :: "nat \<Rightarrow> string list \<Rightarrow> (string \<times> nat) option" where
  \<comment> \<open>the loop over the first three lines: the line found and the data start index\<close>
  "findHeaderLine i [] = None"
| "findHeaderLine i (line # ls) =
     (if CHR ''|'' \<in> set line \<and> \<not> isVersionLine line then Some (line, i + 1)
      else findHeaderLine (i + 1) ls)"

definition cleanHeader :: "string \<Rightarrow> string" where
  \<comment> \<open>\<open>h.trim().replace(/\[\]$/, "").trim()\<close>\<close>
  "cleanHeader h =
     (let t = js_trim h in js_trim (if js_endsWith ''[]'' t then take (length t - 2) t else t))"

definition keepDataLine :: "string \<Rightarrow> bool" where
  \<comment> \<open>the filter callback of \<open>parseFile\<close>\<close>
  "keepDataLine line =
     (let trimmedLine = js_trim line in
      if trimmedLine = [] then False
      else if isVersionLine trimmedLine then False
      else if js_includes ''[]'' trimmedLine \<and> js_endsWith ''[]'' trimmedLine \<and>
              list_all (\<lambda>field. js_endsWith ''[]'' (js_trim field)) (js_split CHR ''|'' trimmedLine)
           then False
      else if CHR ''|'' \<notin> set trimmedLine then False
      else True)"

definition parseRow :: "string list \<Rightarrow> string \<Rightarrow> LedesRow" where
  \<comment> \<open>the map callback of \<open>parseFile\<close>: pad, then one assignment per header\<close>
  "parseRow hdrs line =
     (let fields0 = js_split CHR ''|'' line;
          fields = fields0 @ replicate (length hdrs - length fields0) [] in
      fold (\<lambda>(i, header) row. assignKey row header (js_trim (elemAt fields i)))
           (enumerate 0 hdrs) Map.empty)"

definition parseFile :: "string \<Rightarrow> error + LedesData" where
  "parseFile content =
     (let lines = nonBlankLines content in
      if length lines = 0 then Inl FileIsEmpty
      else
        let (hdrs, dataStartIndex) =
              (case findHeaderLine 0 (take 3 lines) of
                 Some (headerLine, i) \<Rightarrow>
                   if headerLine \<noteq> [] \<and> CHR ''|'' \<in> set headerLine
                   then (map cleanHeader (js_split CHR ''|'' headerLine), i)
                   else (LEDES_HEADERS, 0)
               | None \<Rightarrow> (LEDES_HEADERS, 0));
            dataLines = drop dataStartIndex lines
        in Inr \<lparr>headers = hdrs,
                rows = map (parseRow hdrs) (filter keepDataLine dataLines)\<rparr>)"

definition formatRow :: "string list \<Rightarrow> LedesRow \<Rightarrow> string" where
  \<comment> \<open>the data-line callback of \<open>formatForDownload\<close>, with \<open>row[header] || ""\<close>\<close>
  "formatRow hdrs row =
     js_join ''|''
       (map (\<lambda>header. case row header of
                         Some v \<Rightarrow> v
                       | None \<Rightarrow> if header \<in> set objectPrototypeKeys then inheritedText header
                                 else [])
            hdrs)"

definition formatForDownload :: "LedesData \<Rightarrow> string" where
  "formatForDownload data =
     (let headerLine = js_join ''|'' (map (\<lambda>h. h @ ''[]'') (headers data));
          dataLines = map (formatRow (headers data)) (rows data)
      in js_join [CHR 0x0A] (headerLine # dataLines))"

section \<open>JavaScript numbers\<close>

text \<open>
  A Number is an IEEE 754 double. \<open>Fin q\<close> is the finite double whose exact value is
  the rational \<open>q\<close>; the two zeros are one value, which no operation below tells
  apart (\<open>-0 === 0\<close>, \<open>-0 || 0\<close> is \<open>0\<close>, \<open>String(-0)\<close> is \<open>"0"\<close>, a Set stores
  \<open>-0\<close> as \<open>0\<close>). Every arithmetic result is the exact result rounded to the nearest
  double, ties to even, by \<open>round64\<close>.
\<close>

datatype jsnum = NaN | PInf | NInf | Fin rat

function ilog :: "int \<Rightarrow> int \<Rightarrow> int" where
  \<comment> \<open>the integer logarithm: \<open>b ^ ilog b n \<le> n < b ^ (ilog b n + 1)\<close> for \<open>n > 0\<close>\<close>
  "ilog b n = (if b < 2 \<or> n < b then 0 else 1 + ilog b (n div b))"
  by pat_completeness auto
termination
  by (relation "measure (\<lambda>(b, n). nat n)") (auto simp: zless_nat_conj intro: int_div_less_self)

declare ilog.simps [simp del]

definition pow :: "int \<Rightarrow> int \<Rightarrow> rat" where
  "pow b e = (if 0 \<le> e then of_int b ^ nat e else 1 / of_int b ^ nat (- e))"

definition floorLog :: "int \<Rightarrow> rat \<Rightarrow> int" where
  \<comment> \<open>for \<open>a > 0\<close>, the \<open>e\<close> with \<open>b ^ e \<le> a < b ^ (e + 1)\<close>\<close>
  "floorLog b a =
     (if 1 \<le> a then ilog b \<lfloor>a\<rfloor>
      else - (1 + ilog b (\<lceil>1 / a\<rceil> - 1)))"

definition roundHalfEven :: "rat \<Rightarrow> int" where
  "roundHalfEven x =
     (let f = \<lfloor>x\<rfloor>; d = x - of_int f in
      if d < 1 / 2 then f else if 1 / 2 < d then f + 1 else if even f then f else f + 1)"

definition round64 :: "rat \<Rightarrow> jsnum" where
  \<comment> \<open>the double nearest to \<open>q\<close>: 53 significant bits, least exponent -1074,
      infinite when the rounded value reaches \<open>2 ^ 1024\<close>\<close>
  "round64 q =
     (if q = 0 then Fin 0
      else
        let a = \<bar>q\<bar>;
            p = max (floorLog 2 a - 52) (- 1074);
            r = of_int (roundHalfEven (a / pow 2 p)) * pow 2 p
        in if r \<noteq> 0 \<and> 1024 \<le> floorLog 2 r then (if q < 0 then NInf else PInf)
           else Fin (if q < 0 then - r else r))"

fun jneg :: "jsnum \<Rightarrow> jsnum" where
  "jneg NaN = NaN"
| "jneg PInf = NInf"
| "jneg NInf = PInf"
| "jneg (Fin q) = Fin (- q)"

fun jadd :: "jsnum \<Rightarrow> jsnum \<Rightarrow> jsnum" where
  "jadd NaN y = NaN"
| "jadd x NaN = NaN"
| "jadd PInf NInf = NaN"
| "jadd NInf PInf = NaN"
| "jadd PInf y = PInf"
| "jadd NInf y = NInf"
| "jadd x PInf = PInf"
| "jadd x NInf = NInf"
| "jadd (Fin a) (Fin b) = round64 (a + b)"

definition jsub :: "jsnum \<Rightarrow> jsnum \<Rightarrow> jsnum" where
  "jsub x y = jadd x (jneg y)"

fun jmul :: "jsnum \<Rightarrow> jsnum \<Rightarrow> jsnum" where
  "jmul NaN y = NaN"
| "jmul x NaN = NaN"
| "jmul (Fin a) (Fin b) = round64 (a * b)"
| "jmul (Fin a) y = (if a = 0 then NaN else if 0 < a then y else jneg y)"
| "jmul x (Fin b) = (if b = 0 then NaN else if 0 < b then x else jneg x)"
| "jmul PInf y = y"
| "jmul NInf y = jneg y"

fun jabs :: "jsnum \<Rightarrow> jsnum" where
  \<comment> \<open>\<open>Math.abs\<close>\<close>
  "jabs NaN = NaN"
| "jabs PInf = PInf"
| "jabs NInf = PInf"
| "jabs (Fin q) = Fin \<bar>q\<bar>"

fun jgt :: "jsnum \<Rightarrow> jsnum \<Rightarrow> bool" where
  \<comment> \<open>\<open>x > y\<close>\<close>
  "jgt NaN y = False"
| "jgt x NaN = False"
| "jgt x PInf = False"
| "jgt NInf y = False"
| "jgt PInf y = True"
| "jgt x NInf = True"
| "jgt (Fin a) (Fin b) = (b < a)"

definition isNaN :: "jsnum \<Rightarrow> bool" where
  "isNaN x \<longleftrightarrow> x = NaN"

definition orZero :: "jsnum \<Rightarrow> jsnum" where
  \<comment> \<open>\<open>x || 0\<close>: \<open>NaN\<close> and zero are falsy\<close>
  "orZero x = (if x = NaN \<or> x = Fin 0 then Fin 0 else x)"

definition digitValue :: "char \<Rightarrow> int" where
  "digitValue c = of_char c - of_char CHR ''0''"

definition digitsValue :: "string \<Rightarrow> int" where
  \<comment> \<open>the value of a string of decimal digits\<close>
  "digitsValue ds = foldl (\<lambda>n c. 10 * n + digitValue c) 0 ds"

definition splitSign :: "string \<Rightarrow> bool \<times> string" where
  \<comment> \<open>an optional sign: whether it is \<open>-\<close>, and the rest\<close>
  "splitSign s =
     (case s of
        [] \<Rightarrow> (False, [])
      | c # r \<Rightarrow> if c = CHR ''-'' then (True, r) else if c = CHR ''+'' then (False, r)
                 else (False, s))"

definition exponentPart :: "string \<Rightarrow> int" where
  \<comment> \<open>the value of an optional \<open>ExponentPart\<close> at the start of the string\<close>
  "exponentPart s =
     (case s of
        [] \<Rightarrow> 0
      | c # r \<Rightarrow>
          if c = CHR ''e'' \<or> c = CHR ''E'' then
            (let (neg, r') = splitSign r; ds = takeWhile isDigit r' in
             if ds = [] then 0
             else if neg then - digitsValue ds else digitsValue ds)
          else 0)"

datatype literal =
    NotANumber \<comment> \<open>no prefix is a literal\<close>
  | Infinite bool \<comment> \<open>\<open>Infinity\<close>, and whether a minus sign precedes it\<close>
  | Decimal rat \<comment> \<open>a decimal literal, by its mathematical value\<close>

definition strDecimalLiteral :: "string \<Rightarrow> literal" where
  \<comment> \<open>the longest prefix of the left-trimmed string that is a \<open>StrDecimalLiteral\<close>\<close>
  "strDecimalLiteral s =
     (let (neg, u) = splitSign (dropWhile isWhiteSpace s) in
      if js_startsWith ''Infinity'' u then Infinite neg
      else
        let ip = takeWhile isDigit u;
            r1 = dropWhile isDigit u;
            (fp, r2) = (case r1 of
                          [] \<Rightarrow> ([], r1)
                        | c # r \<Rightarrow> if c = CHR ''.''
                                   then (takeWhile isDigit r, dropWhile isDigit r)
                                   else ([], r1))
        in if ip = [] \<and> fp = [] then NotANumber
           else
             let mv = of_int (digitsValue (ip @ fp)) * pow 10 (exponentPart r2 - int (length fp))
             in Decimal (if neg then - mv else mv))"

definition parseFloat :: "string \<Rightarrow> jsnum" where
  \<comment> \<open>the literal at the start of the string, rounded to a double\<close>
  "parseFloat s =
     (case strDecimalLiteral s of
        NotANumber \<Rightarrow> NaN
      | Infinite neg \<Rightarrow> (if neg then NInf else PInf)
      | Decimal mv \<Rightarrow> round64 mv)"

definition isHexDigit :: "char \<Rightarrow> bool" where
  "isHexDigit c \<longleftrightarrow> isDigit c \<or> (CHR ''a'' \<le> c \<and> c \<le> CHR ''f'') \<or> (CHR ''A'' \<le> c \<and> c \<le> CHR ''F'')"

definition hexDigitValue :: "char \<Rightarrow> int" where
  "hexDigitValue c =
     (if isDigit c then digitValue c
      else if CHR ''a'' \<le> c then of_char c - of_char CHR ''a'' + 10
      else of_char c - of_char CHR ''A'' + 10)"

definition parseInt :: "string \<Rightarrow> jsnum" where
  \<comment> \<open>\<open>parseInt(s)\<close> with no radix: decimal, or hexadecimal after \<open>0x\<close>\<close>
  "parseInt s =
     (let (neg, u) = splitSign (dropWhile isWhiteSpace s);
          hex = js_startsWith ''0x'' u \<or> js_startsWith ''0X'' u;
          z = (if hex then takeWhile isHexDigit (drop 2 u) else takeWhile isDigit u);
          mathInt = (if hex then foldl (\<lambda>n c. 16 * n + hexDigitValue c) 0 z else digitsValue z)
      in if z = [] then NaN
         else round64 (if neg then - of_int mathInt else of_int mathInt))"

definition stripNonNumeric :: "string \<Rightarrow> string" where
  \<comment> \<open>\<open>s.replace(/[^\d.-]/g, "")\<close>\<close>
  "stripNonNumeric s = filter (\<lambda>c. isDigit c \<or> c = CHR ''.'' \<or> c = CHR ''-'') s"

subsection \<open>Numbers to strings\<close>

function intDigits :: "int \<Rightarrow> string" where
  \<comment> \<open>the decimal representation of a natural number\<close>
  "intDigits n =
     (if n < 10 then [char_of (n + of_char CHR ''0'')]
      else intDigits (n div 10) @ [char_of (n mod 10 + of_char CHR ''0'')])"
  by pat_completeness auto
termination
  by (relation "measure nat") auto

fun findDigits :: "nat \<Rightarrow> rat \<Rightarrow> int \<Rightarrow> int \<Rightarrow> int \<times> int" where
  \<comment> \<open>the digits \<open>s\<close> and the exponent \<open>n\<close> of the shortest decimal \<open>s * 10 ^ (n - k)\<close>
      that rounds to the double \<open>a\<close>, trying \<open>k\<close> digits first; when both neighbours of
      \<open>a\<close> with \<open>k\<close> digits round to it, the nearer one (the even one on a tie).
      Seventeen digits always identify a double, so the search ends before the bound on
      its length is used up.\<close>
  "findDigits 0 a n0 k = (0, n0)"
| "findDigits (Suc fuel) a n0 k =
     (let u = pow 10 (n0 - k);
          lo = \<lfloor>a / u\<rfloor>;
          hi = lo + 1;
          okLo = (round64 (of_int lo * u) = Fin a);
          okHi = (round64 (of_int hi * u) = Fin a);
          dLo = a - of_int lo * u;
          dHi = of_int hi * u - a;
          useLo = (okLo \<and> (\<not> okHi \<or> dLo < dHi \<or> (dLo = dHi \<and> even lo)))
      in if useLo then (lo, n0)
         else if okHi then (if hi = 10 ^ nat k then (10 ^ nat (k - 1), n0 + 1) else (hi, n0))
         else findDigits fuel a n0 (k + 1))"

definition positiveToString :: "rat \<Rightarrow> string" where
  \<comment> \<open>\<open>Number::toString\<close> for a finite double \<open>a > 0\<close>\<close>
  "positiveToString a =
     (let (s, n) = findDigits 21 a (floorLog 10 a + 1) 1;
          ds = intDigits s;
          k = int (length ds);
          e = n - 1;
          expo = [CHR ''e'', if e < 0 then CHR ''-'' else CHR ''+''] @ intDigits \<bar>e\<bar>
      in if k \<le> n \<and> n \<le> 21 then ds @ replicate (nat (n - k)) CHR ''0''
         else if 0 < n \<and> n \<le> 21 then take (nat n) ds @ ''.'' @ drop (nat n) ds
         else if - 6 < n \<and> n \<le> 0 then ''0.'' @ replicate (nat (- n)) CHR ''0'' @ ds
         else if k = 1 then ds @ expo
         else take 1 ds @ ''.'' @ drop 1 ds @ expo)"

fun numToString :: "jsnum \<Rightarrow> string" where
  \<comment> \<open>\<open>String(x)\<close>, as in a template literal and in \<open>Array.prototype.join\<close>\<close>
  "numToString NaN = ''NaN''"
| "numToString PInf = ''Infinity''"
| "numToString NInf = ''-Infinity''"
| "numToString (Fin q) =
     (if q = 0 then ''0'' else if q < 0 then ''-'' @ positiveToString (- q)
      else positiveToString q)"

fun toFixed2 :: "jsnum \<Rightarrow> string" where
  \<comment> \<open>\<open>x.toFixed(2)\<close>\<close>
  "toFixed2 (Fin q) =
     (let x = \<bar>q\<bar>; sgn = (if q < 0 then ''-'' else []) in
      if pow 10 21 \<le> x then sgn @ numToString (Fin x)
      else
        let n = \<lfloor>x * 100 + 1 / 2\<rfloor>;
            m0 = intDigits n;
            m = replicate (3 - length m0) CHR ''0'' @ m0
        in sgn @ take (length m - 2) m @ ''.'' @ drop (length m - 2) m)"
| "toFixed2 x = numToString x"


section \<open>The validator\<close>

record ValidationError =
  field :: string
  column :: nat
  "value" :: string
  error :: string
  row :: "nat option"

record DatasetValidationError =
  type :: string
  invoice_identifier :: string
  error :: string
  affected_rows :: "nat list"

record ValidationResult =
  row_errors :: "ValidationError list"
  dataset_errors :: "DatasetValidationError list"

subsection \<open>Field rules\<close>

definition isAlpha :: "char \<Rightarrow> bool" where
  \<comment> \<open>\<open>[A-Z]\<close> under the \<open>i\<close> flag\<close>
  "isAlpha c \<longleftrightarrow> (CHR ''A'' \<le> c \<and> c \<le> CHR ''Z'') \<or> (CHR ''a'' \<le> c \<and> c \<le> CHR ''z'')"

definition upperChar :: "char \<Rightarrow> string" where
  \<comment> \<open>the upper-case form of one code unit below 256. The forms of \<open>CHR 0xB5\<close> and
      \<open>CHR 0xFF\<close> lie above 255; the two are left as they are, which changes no
      comparison with an ASCII literal, the only use made of the result.\<close>
  "upperChar c =
     (if (CHR ''a'' \<le> c \<and> c \<le> CHR ''z'') \<or> (CHR 0xE0 \<le> c \<and> c \<le> CHR 0xFE \<and> c \<noteq> CHR 0xF7)
      then [char_of ((of_char c :: int) - 32)]
      else if c = CHR 0xDF then ''SS''
      else [c])"

definition toUpperCase :: "string \<Rightarrow> string" where
  "toUpperCase s = concat (map upperChar s)"

definition validStateCodes :: "string list" where
  "validStateCodes =
    [''AL'', ''AK'', ''AZ'', ''AR'', ''CA'', ''CO'', ''CT'', ''DE'', ''FL'', ''GA'', ''HI'', ''ID'',
     ''IL'', ''IN'', ''IA'', ''KS'', ''KY'', ''LA'', ''ME'', ''MD'', ''MA'', ''MI'', ''MN'', ''MS'',
     ''MO'', ''MT'', ''NE'', ''NV'', ''NH'', ''NJ'', ''NM'', ''NY'', ''NC'', ''ND'', ''OH'', ''OK'',
     ''OR'', ''PA'', ''RI'', ''SC'', ''SD'', ''TN'', ''TX'', ''UT'', ''VT'', ''VA'', ''WA'', ''WV'',
     ''WI'', ''WY'', ''DC'']"

text \<open>
  A \<open>Date\<close> is modelled by what the validator reads of it: the local year, month index
  and day of the month, and the time value in milliseconds since the epoch, which
  \<open><\<close> compares. What \<open>new Date(year, monthIndex, day)\<close> yields depends on the time zone
  of the host, so the functions that build a date take the constructor as a parameter
  \<open>newDate\<close>. \<open>fixedOffsetDate\<close> is the constructor of a host whose local time stays at
  one offset from UTC all year, over the proleptic Gregorian calendar; a zone that
  skips a local day (Pacific/Apia had no 30 December 2011) has another.
\<close>

record jsDate =
  getFullYear :: int
  getMonth :: int
  getDate :: int
  getTime :: int

type_synonym dateConstructor = "int \<Rightarrow> int \<Rightarrow> int \<Rightarrow> jsDate"

definition daysFromCivil :: "int \<Rightarrow> int \<Rightarrow> int \<Rightarrow> int" where
  \<comment> \<open>the day number of year \<open>y\<close>, month \<open>m\<close> in 1..12, day \<open>d\<close>\<close>
  "daysFromCivil y m d =
     (let y' = (if m \<le> 2 then y - 1 else y);
          era = y' div 400;
          yoe = y' - era * 400;
          doy = (153 * (if 2 < m then m - 3 else m + 9) + 2) div 5 + d - 1;
          doe = yoe * 365 + yoe div 4 - yoe div 100 + doy
      in era * 146097 + doe - 719468)"

definition civilFromDays :: "int \<Rightarrow> int \<times> int \<times> int" where
  \<comment> \<open>year, month in 1..12 and day of a day number\<close>
  "civilFromDays z =
     (let z' = z + 719468;
          era = z' div 146097;
          doe = z' - era * 146097;
          yoe = (doe - doe div 1460 + doe div 36524 - doe div 146096) div 365;
          doy = doe - (365 * yoe + yoe div 4 - yoe div 100);
          mp = (5 * doy + 2) div 153;
          d = doy - (153 * mp + 2) div 5 + 1;
          m = (if mp < 10 then mp + 3 else mp - 9);
          y = yoe + era * 400
      in (if m \<le> 2 then y + 1 else y, m, d))"

definition fixedOffsetDate :: "int \<Rightarrow> dateConstructor" where
  \<comment> \<open>\<open>new Date(year, monthIndex, day)\<close> where local time is UTC plus \<open>offsetMinutes\<close>:
      years 0 to 99 mean 1900 to 1999, and a month index or a day out of range carries
      over\<close>
  "fixedOffsetDate offsetMinutes year monthIndex day =
     (let yr = (if 0 \<le> year \<and> year \<le> 99 then 1900 + year else year);
          ym = yr + monthIndex div 12;
          mn = monthIndex mod 12;
          days = daysFromCivil ym (mn + 1) 1 + day - 1;
          (y, m, d) = civilFromDays days
      in \<lparr>getFullYear = y, getMonth = m - 1, getDate = d,
          getTime = days * 86400000 - offsetMinutes * 60000\<rparr>)"

definition utcDate :: dateConstructor where
  "utcDate = fixedOffsetDate 0"

definition parseDate :: "dateConstructor \<Rightarrow> string \<Rightarrow> jsDate" where
  \<comment> \<open>called on eight digits only, where \<open>parseInt\<close> reads each part in full\<close>
  "parseDate newDate dateStr =
     (let year = digitsValue (take 4 dateStr);
          month = digitsValue (take 2 (drop 4 dateStr));
          day = digitsValue (take 2 (drop 6 dateStr))
      in newDate year (month - 1) day)"

definition validateDate :: "dateConstructor \<Rightarrow> string \<Rightarrow> bool \<times> string" where
  "validateDate newDate v =
     (if \<not> (length v = 8 \<and> list_all isDigit v) then (False, ''Date must be in YYYYMMDD format'')
      else
        let year = digitsValue (take 4 v);
            month = digitsValue (take 2 (drop 4 v));
            day = digitsValue (take 2 (drop 6 v));
            date = newDate year (month - 1) day
        in if getFullYear date \<noteq> year \<or> getMonth date \<noteq> month - 1 \<or> getDate date \<noteq> day
           then (False, ''Invalid date'')
           else (True, []))"

definition validateDecimal :: "string \<Rightarrow> bool \<times> string" where
  "validateDecimal v =
     (let numValue = parseFloat v in
      if isNaN numValue then (False, ''Invalid decimal number'') else (True, []))"

definition validateInteger :: "string \<Rightarrow> bool \<times> string" where
  "validateInteger v =
     (let intValue = parseInt v in
      if isNaN intValue \<or> numToString intValue \<noteq> v then (False, ''Must be a whole number'')
      else (True, []))"

definition validateText :: "string \<Rightarrow> bool \<times> string" where
  "validateText v =
     (if CHR ''|'' \<in> set v then (False, ''Pipe character (|) not allowed'')
      else if 1000 < length v then (False, ''Text too long (maximum 1000 characters)'')
      else (True, []))"

definition validateRequiredDate :: "dateConstructor \<Rightarrow> string \<Rightarrow> bool \<times> string" where
  "validateRequiredDate newDate v =
     (if v = [] \<or> js_trim v = [] then (False, ''Date is required'')
      else validateDate newDate v)"

definition validateRequiredDecimal :: "string \<Rightarrow> bool \<times> string" where
  "validateRequiredDecimal v =
     (if v = [] \<or> js_trim v = [] then (False, ''Value is required'') else validateDecimal v)"

definition validateRequiredText :: "string \<Rightarrow> bool \<times> string" where
  "validateRequiredText v =
     (if v = [] \<or> js_trim v = [] then (False, ''Field is required'') else validateText v)"

definition validateLineItemType :: "string \<Rightarrow> bool \<times> string" where
  "validateLineItemType v =
     (if toUpperCase v \<notin> set [''F'', ''E'', ''IF'', ''IE'']
      then (False, ''Line item type must be F, E, IF, or IE'')
      else (True, []))"

definition validateCurrency :: "string \<Rightarrow> bool \<times> string" where
  \<comment> \<open>\<open>/^[A-Z]{3}$/i\<close>\<close>
  "validateCurrency v =
     (if \<not> (length v = 3 \<and> list_all isAlpha v)
      then (False, ''Currency must be a 3-letter code (e.g., USD, EUR, GBP)'')
      else (True, []))"

definition validatePostcode :: "string \<Rightarrow> bool \<times> string" where
  \<comment> \<open>\<open>/^[A-Z0-9\-\s]{3,10}$/i\<close>\<close>
  "validatePostcode v =
     (if 3 \<le> length v \<and> length v \<le> 10 \<and>
         list_all (\<lambda>c. isAlpha c \<or> isDigit c \<or> c = CHR ''-'' \<or> isWhiteSpace c) v
      then (True, [])
      else (False, ''Invalid postcode format''))"

definition validateStateOrRegion :: "string \<Rightarrow> bool \<times> string" where
  \<comment> \<open>a state code, or \<open>/^[A-Z\s]{2,50}$/i\<close>\<close>
  "validateStateOrRegion v =
     (if toUpperCase v \<in> set validStateCodes then (True, [])
      else if 2 \<le> length v \<and> length v \<le> 50 \<and> list_all (\<lambda>c. isAlpha c \<or> isWhiteSpace c) v
      then (True, [])
      else (False, ''Invalid state or region format''))"

definition fieldValidators :: "dateConstructor \<Rightarrow> string \<rightharpoonup> (string \<Rightarrow> bool \<times> string)" where
  \<comment> \<open>the own keys of the table\<close>
  "fieldValidators newDate = map_of
    [(''INVOICE_DATE'', validateDate newDate),
     (''BILLING_START_DATE'', validateDate newDate),
     (''BILLING_END_DATE'', validateDate newDate),
     (''LINE_ITEM_DATE'', validateRequiredDate newDate),
     (''LINE_ITEM_TAX_RATE'', validateDecimal),
     (''LINE_ITEM_NUMBER_OF_UNITS'', validateDecimal),
     (''LINE_ITEM_NUMBER'', validateInteger),
     (''LINE_ITEM_TYPE'', validateLineItemType),
     (''LINE_ITEM_TOTAL'', validateRequiredDecimal),
     (''LAW_FIRM_POSTCODE'', validatePostcode),
     (''CLIENT_POSTCODE'', validatePostcode),
     (''LAW_FIRM_STATEorREGION'', validateStateOrRegion),
     (''CLIENT_STATEorREGION'', validateStateOrRegion),
     (''LAW_FIRM_ID'', validateRequiredText),
     (''CLIENT_TAX_ID'', validateRequiredText),
     (''INVOICE_NET_TOTAL'', validateRequiredDecimal),
     (''INVOICE_CURRENCY'', validateCurrency)]"

text \<open>
  The table of validators is a plain object, so \<open>fieldName in this.fieldValidators\<close> also
  holds for the names of \<open>objectPrototypeKeys\<close>, and \<open>validateField\<close> then calls the
  inherited member on the table with the value as its argument. What comes back is
  not always the pair a validator returns.
\<close>

datatype fieldResult =
    Tuple "bool \<times> string" \<comment> \<open>the array \<open>[isValid, errorMessage]\<close> of a validator\<close>
  | Text string \<comment> \<open>a string, or a String object, by its characters\<close>
  | NotIterable \<comment> \<open>a boolean, \<open>undefined\<close>, a function or a plain object\<close>

definition callInherited :: "string \<Rightarrow> string \<Rightarrow> error + fieldResult" where
  \<comment> \<open>\<open>this.fieldValidators[fieldName](value)\<close> for a name of \<open>objectPrototypeKeys\<close>:
      \<open>Object(value)\<close> wraps the string; \<open>toString\<close> and \<open>toLocaleString\<close> print the table;
      \<open>__proto__\<close> is the prototype object, which is no function; \<open>__defineGetter__\<close> and
      \<open>__defineSetter__\<close> reject the missing second argument; \<open>valueOf\<close> is the table,
      \<open>hasOwnProperty\<close>, \<open>isPrototypeOf\<close> and \<open>propertyIsEnumerable\<close> a boolean,
      \<open>__lookupGetter__\<close> and \<open>__lookupSetter__\<close> \<open>undefined\<close> or a function\<close>
  "callInherited fieldName v =
     (if fieldName = ''constructor'' then Inr (Text v)
      else if fieldName \<in> set [''toString'', ''toLocaleString''] then Inr (Text ''[object Object]'')
      else if fieldName \<in> set [''__proto__'', ''__defineGetter__'', ''__defineSetter__'']
      then Inl TypeError
      else Inr NotIterable)"

definition validateField :: "dateConstructor \<Rightarrow> string \<Rightarrow> string \<Rightarrow> error + fieldResult" where
  "validateField newDate fieldName v =
     (if v = [] \<or> js_trim v = [] then Inr (Tuple (True, []))
      else (case fieldValidators newDate fieldName of
              Some validator \<Rightarrow> Inr (Tuple (validator v))
            | None \<Rightarrow>
                if fieldName \<in> set objectPrototypeKeys then callInherited fieldName v
                else Inr (Tuple (validateText v))))"

subsection \<open>Row rules\<close>

fun collectErrors :: "('a \<Rightarrow> error + 'b list) \<Rightarrow> 'a list \<Rightarrow> error + 'b list" where
  \<comment> \<open>a loop that appends what each round yields and ends with the first round that
      throws\<close>
  "collectErrors f [] = Inr []"
| "collectErrors f (x # xs) =
     (case f x of
        Inl e \<Rightarrow> Inl e
      | Inr ys \<Rightarrow> (case collectErrors f xs of Inl e \<Rightarrow> Inl e | Inr zs \<Rightarrow> Inr (ys @ zs)))"

definition validateRow :: "dateConstructor \<Rightarrow> string list \<Rightarrow> string list \<Rightarrow> error + ValidationError list" where
  \<comment> \<open>\<open>const [isValid, errorMessage] = this.validateField(fieldName, value)\<close> takes the
      first two elements of a pair and the first two characters of a text, and throws
      on a value that is not iterable. \<open>validateField\<close> returns no empty text, so the
      first character, a string of length one, is truthy.\<close>
  "validateRow newDate rowData hdrs =
     collectErrors (\<lambda>i.
       let fieldName = hdrs ! i;
           v = rowData ! i
       in case validateField newDate fieldName v of
            Inl e \<Rightarrow> Inl e
          | Inr (Tuple (isValid, errorMessage)) \<Rightarrow>
              Inr (if \<not> isValid
                   then [\<lparr>field = fieldName, column = i + 1, value = v, error = errorMessage,
                          row = None\<rparr>]
                   else [])
          | Inr (Text s) \<Rightarrow> Inr []
          | Inr NotIterable \<Rightarrow> Inl TypeError)
       [0 ..< min (length hdrs) (length rowData)]"

definition rowDictOf :: "string list \<Rightarrow> string list \<Rightarrow> (string \<rightharpoonup> string)" where
  \<comment> \<open>\<open>headers.forEach((header, index) => { rowDict[header] = rowData[index] || ""; })\<close>\<close>
  "rowDictOf hdrs rowData =
     fold (\<lambda>(index, header) rowDict. assignKey rowDict header (elemAt rowData index))
          (enumerate 0 hdrs) Map.empty"

definition getField :: "(string \<rightharpoonup> string) \<Rightarrow> string \<Rightarrow> string" where
  \<comment> \<open>\<open>rowDict[name] || ""\<close>, for the field names the validator reads, none of which is
      a name of \<open>objectPrototypeKeys\<close>\<close>
  "getField rowDict name = (case rowDict name of None \<Rightarrow> [] | Some v \<Rightarrow> v)"

definition columnOf :: "string list \<Rightarrow> string \<Rightarrow> nat" where
  \<comment> \<open>\<open>headers.indexOf(name) + 1\<close>\<close>
  "columnOf hdrs name = (case indexOf hdrs name of None \<Rightarrow> 0 | Some i \<Rightarrow> i + 1)"

definition fieldError :: "string list \<Rightarrow> string \<Rightarrow> string \<Rightarrow> string \<Rightarrow> ValidationError" where
  \<comment> \<open>the object pushed for a cross-field finding\<close>
  "fieldError hdrs name v message =
     \<lparr>field = name, column = columnOf hdrs name, value = v, error = message, row = None\<rparr>"

definition billingRangeErrors :: "dateConstructor \<Rightarrow> (string \<rightharpoonup> string) \<Rightarrow> string list \<Rightarrow> ValidationError list" where
  "billingRangeErrors newDate rowDict hdrs =
     (let billingStart = getField rowDict ''BILLING_START_DATE'';
          billingEnd = getField rowDict ''BILLING_END_DATE''
      in if billingStart \<noteq> [] \<and> billingEnd \<noteq> [] \<and>
            fst (validateDate newDate billingStart) \<and> fst (validateDate newDate billingEnd) \<and>
            getTime (parseDate newDate billingEnd) < getTime (parseDate newDate billingStart)
         then [fieldError hdrs ''BILLING_START_DATE'' billingStart
                 ''Billing start date must be on or before billing end date'',
               fieldError hdrs ''BILLING_END_DATE'' billingEnd
                 ''Billing end date must be on or after billing start date'']
         else [])"

definition isAdjustmentType :: "string \<Rightarrow> bool" where
  "isAdjustmentType lineItemType \<longleftrightarrow> toUpperCase lineItemType \<in> set [''IF'', ''IE'']"

definition unitsErrors :: "(string \<rightharpoonup> string) \<Rightarrow> string list \<Rightarrow> ValidationError list" where
  "unitsErrors rowDict hdrs =
     (let lineItemType = getField rowDict ''LINE_ITEM_TYPE'';
          unitsField = getField rowDict ''LINE_ITEM_NUMBER_OF_UNITS''
      in if lineItemType \<noteq> [] \<and> unitsField \<noteq> [] \<and>
            \<not> isAdjustmentType lineItemType \<and>
            (unitsField = [] \<or> js_trim unitsField = [] \<or> parseFloat unitsField = Fin 0)
         then [fieldError hdrs ''LINE_ITEM_NUMBER_OF_UNITS'' unitsField
                 ''Units cannot be 0 or null for non-adjustment line items (F, E)'']
         else [])"

definition unitCostErrors :: "(string \<rightharpoonup> string) \<Rightarrow> string list \<Rightarrow> ValidationError list" where
  "unitCostErrors rowDict hdrs =
     (let lineItemType = getField rowDict ''LINE_ITEM_TYPE'';
          unitCostField = getField rowDict ''LINE_ITEM_UNIT_COST''
      in if lineItemType \<noteq> [] \<and> unitCostField \<noteq> [] \<and>
            \<not> isAdjustmentType lineItemType \<and>
            (unitCostField = [] \<or> js_trim unitCostField = [] \<or>
             parseFloat (stripNonNumeric unitCostField) = Fin 0)
         then [fieldError hdrs ''LINE_ITEM_UNIT_COST'' unitCostField
                 ''Unit cost cannot be 0 or null for non-adjustment line items (F, E)'']
         else [])"

definition requiredIfBlank :: "(string \<rightharpoonup> string) \<Rightarrow> string list \<Rightarrow> string \<Rightarrow> string \<Rightarrow> ValidationError list" where
  \<comment> \<open>one type-conditional check: \<open>if (!v || v.trim() === "") errors.push(...)\<close>\<close>
  "requiredIfBlank rowDict hdrs name message =
     (let v = getField rowDict name in
      if v = [] \<or> js_trim v = [] then [fieldError hdrs name v message] else [])"

definition requiredFieldErrors :: "(string \<rightharpoonup> string) \<Rightarrow> string list \<Rightarrow> ValidationError list" where
  "requiredFieldErrors rowDict hdrs =
     (let lineItemType = getField rowDict ''LINE_ITEM_TYPE'' in
      if lineItemType \<noteq> [] then
        (let ty = toUpperCase lineItemType in
         (if ty = ''F'' then
            requiredIfBlank rowDict hdrs ''LINE_ITEM_TASK_CODE''
              ''Task code is required for fee line items (F)'' @
            requiredIfBlank rowDict hdrs ''TIMEKEEPER_ID''
              ''Timekeeper ID is required for fee line items (F)'' @
            requiredIfBlank rowDict hdrs ''LINE_ITEM_DESCRIPTION''
              ''Description is required for fee line items (F)''
          else []) @
         (if ty = ''E'' then
            requiredIfBlank rowDict hdrs ''LINE_ITEM_EXPENSE_CODE''
              ''Expense code is required for expense line items (E)''
          else []))
      else [])"

definition tolerance :: jsnum where
  \<comment> \<open>the literal \<open>0.01\<close>\<close>
  "tolerance = round64 (1 / 100)"


definition lineTotalMessage :: "jsnum \<Rightarrow> jsnum \<Rightarrow> jsnum \<Rightarrow> jsnum \<Rightarrow> jsnum \<Rightarrow> jsnum \<Rightarrow> string" where
  "lineTotalMessage unitsDecimal unitCostDecimal adjustmentDecimal taxDecimal calculatedTotal
       lineTotalDecimal =
     ''Line item calculation error: '' @ numToString unitsDecimal @ '' '' @ [CHR 0xD7] @ '' '' @
     numToString unitCostDecimal @ '' + '' @ numToString adjustmentDecimal @ '' + '' @
     numToString taxDecimal @ '' should equal '' @ toFixed2 calculatedTotal @
     '', but total shows '' @ numToString lineTotalDecimal"

definition lineTotalErrors :: "(string \<rightharpoonup> string) \<Rightarrow> string list \<Rightarrow> ValidationError list" where
  "lineTotalErrors rowDict hdrs =
     (let units = getField rowDict ''LINE_ITEM_NUMBER_OF_UNITS'';
          unitCost = getField rowDict ''LINE_ITEM_UNIT_COST'';
          adjustment = getField rowDict ''LINE_ITEM_ADJUSTMENT_AMOUNT'';
          tax = getField rowDict ''LINE_ITEM_TAX_TOTAL'';
          lineTotal = getField rowDict ''LINE_ITEM_TOTAL''
      in if units \<noteq> [] \<and> unitCost \<noteq> [] \<and> lineTotal \<noteq> [] then
           (let unitsDecimal = orZero (parseFloat units);
                unitCostDecimal = orZero (parseFloat (stripNonNumeric unitCost));
                adjustmentDecimal = orZero (parseFloat (stripNonNumeric adjustment));
                taxDecimal = orZero (parseFloat (stripNonNumeric tax));
                lineTotalDecimal = orZero (parseFloat (stripNonNumeric lineTotal));
                calculatedTotal =
                  jadd (jadd (jmul unitsDecimal unitCostDecimal) adjustmentDecimal) taxDecimal
            in if jgt (jabs (jsub calculatedTotal lineTotalDecimal)) tolerance then
                 (let errorMessage = lineTotalMessage unitsDecimal unitCostDecimal
                        adjustmentDecimal taxDecimal calculatedTotal lineTotalDecimal
                  in [fieldError hdrs ''LINE_ITEM_NUMBER_OF_UNITS'' units errorMessage,
                      fieldError hdrs ''LINE_ITEM_UNIT_COST'' unitCost errorMessage] @
                     (if adjustment \<noteq> []
                      then [fieldError hdrs ''LINE_ITEM_ADJUSTMENT_AMOUNT'' adjustment errorMessage]
                      else []) @
                     (if tax \<noteq> []
                      then [fieldError hdrs ''LINE_ITEM_TAX_TOTAL'' tax errorMessage]
                      else []) @
                     [fieldError hdrs ''LINE_ITEM_TOTAL'' lineTotal errorMessage])
               else [])
         else [])"

definition validateCrossFieldRow :: "dateConstructor \<Rightarrow> string list \<Rightarrow> string list \<Rightarrow> ValidationError list" where
  "validateCrossFieldRow newDate rowData hdrs =
     (let rowDict = rowDictOf hdrs rowData in
      billingRangeErrors newDate rowDict hdrs @
      unitsErrors rowDict hdrs @
      unitCostErrors rowDict hdrs @
      requiredFieldErrors rowDict hdrs @
      lineTotalErrors rowDict hdrs)"


subsection \<open>Dataset rules\<close>

text \<open>
  The objects \<open>invoices\<close> and \<open>lineItemNumbers\<close> are dictionaries from a key to an
  array that grows by \<open>push\<close>: association lists of the own keys in the order they were
  created. \<open>Object.entries\<close> lists the keys that are array indices first, in ascending
  numeric order, and then the other keys in creation order. Under a name of
  \<open>objectPrototypeKeys\<close> the dictionary reads the inherited member, which is truthy, so
  no array is created, and which has no \<open>push\<close>, so the call throws.
\<close>

fun pushOwn :: "(string \<times> 'a list) list \<Rightarrow> string \<Rightarrow> 'a \<Rightarrow> (string \<times> 'a list) list" where
  \<comment> \<open>the array of an own key grows, or the key is created with a new array\<close>
  "pushOwn [] k v = [(k, [v])]"
| "pushOwn ((k', vs) # rest) k v =
     (if k' = k then (k', vs @ [v]) # rest else (k', vs) # pushOwn rest k v)"

definition dictPush :: "(string \<times> 'a list) list \<Rightarrow> string \<Rightarrow> 'a \<Rightarrow> error + (string \<times> 'a list) list" where
  \<comment> \<open>\<open>if (!d[k]) { d[k] = []; } d[k].push(v);\<close>\<close>
  "dictPush d k v = (if k \<in> set objectPrototypeKeys then Inl TypeError else Inr (pushOwn d k v))"

fun foldThrowing :: "('a \<Rightarrow> 's \<Rightarrow> error + 's) \<Rightarrow> 'a list \<Rightarrow> 's \<Rightarrow> error + 's" where
  \<comment> \<open>a \<open>forEach\<close> that updates a dictionary and ends with the first round that throws\<close>
  "foldThrowing f [] s = Inr s"
| "foldThrowing f (x # xs) s = (case f x s of Inl e \<Rightarrow> Inl e | Inr s' \<Rightarrow> foldThrowing f xs s')"

definition andThen :: "error + 'a \<Rightarrow> ('a \<Rightarrow> error + 'b) \<Rightarrow> error + 'b" where
  \<comment> \<open>one statement after another: the second runs if the first did not throw\<close>
  "andThen r f = (case r of Inl e \<Rightarrow> Inl e | Inr x \<Rightarrow> f x)"

definition isArrayIndex :: "string \<Rightarrow> bool" where
  \<comment> \<open>a canonical numeric string below \<open>2 ^ 32 - 1\<close>\<close>
  "isArrayIndex k \<longleftrightarrow>
     k \<noteq> [] \<and> list_all isDigit k \<and> (k = ''0'' \<or> hd k \<noteq> CHR ''0'') \<and>
     digitsValue k < 4294967295"

definition objectEntries :: "(string \<times> 'a) list \<Rightarrow> (string \<times> 'a) list" where
  "objectEntries d =
     sort_key (\<lambda>(k, v). digitsValue k) (filter (\<lambda>(k, v). isArrayIndex k) d) @
     filter (\<lambda>(k, v). \<not> isArrayIndex k) d"

definition setAdd :: "jsnum list \<Rightarrow> jsnum \<Rightarrow> jsnum list" where
  \<comment> \<open>\<open>Set.prototype.add\<close>, the members in insertion order\<close>
  "setAdd s x = (if x \<in> set s then s else s @ [x])"

definition invoiceIdentifierFields :: "string list" where
  "invoiceIdentifierFields = [''INVOICE_DATE'', ''LAW_FIRM_NAME'', ''CLIENT_NAME'', ''INVOICE_NUMBER'']"

definition availableIdentifiers :: "string list \<Rightarrow> string list" where
  "availableIdentifiers hdrs = filter (\<lambda>f. f \<in> set hdrs) invoiceIdentifierFields"

definition invoiceKeyOf :: "string list \<Rightarrow> (string \<rightharpoonup> string) \<Rightarrow> string" where
  \<comment> \<open>\<open>availableIdentifiers.map((field) => rowDict[field] || "").join("|")\<close>\<close>
  "invoiceKeyOf hdrs rowDict = js_join ''|'' (map (getField rowDict) (availableIdentifiers hdrs))"

definition identifierStr :: "string list \<Rightarrow> string \<Rightarrow> string" where
  \<comment> \<open>the \<open>field=value\<close> parts of a key, without the parts that end in \<open>=\<close>\<close>
  "identifierStr hdrs invoiceKey =
     (let identifierParts = js_split CHR ''|'' invoiceKey in
      js_join '', ''
        (filter (\<lambda>part. \<not> js_endsWith ''='' part)
           (map (\<lambda>(i, f). f @ ''='' @
                   (if i < length identifierParts then identifierParts ! i else ''undefined''))
                (enumerate 0 (availableIdentifiers hdrs)))))"

definition groupInvoiceTotals :: "string list \<Rightarrow> string list list \<Rightarrow> error + (string \<times> (nat \<times> string) list) list" where
  \<comment> \<open>the first loop of \<open>validateInvoiceTotalsConsistency\<close>\<close>
  "groupInvoiceTotals hdrs dataset =
     foldThrowing (\<lambda>(rowIndex, rowData) invoices.
             let rowDict = rowDictOf hdrs rowData
             in dictPush invoices (invoiceKeyOf hdrs rowDict)
                  (rowIndex, getField rowDict ''INVOICE_TOTAL''))
          (enumerate 0 dataset) []"

definition distinctTotals :: "(nat \<times> string) list \<Rightarrow> jsnum list" where
  \<comment> \<open>the Set of the numeric totals of one invoice\<close>
  "distinctTotals invoiceRows =
     fold (\<lambda>(rowIndex, invoiceTotal) invoiceTotals.
             if invoiceTotal \<noteq> [] then
               (let normalizedTotal = parseFloat (stripNonNumeric invoiceTotal)
                in if \<not> isNaN normalizedTotal then setAdd invoiceTotals normalizedTotal
                   else invoiceTotals)
             else invoiceTotals)
          invoiceRows []"

definition sortDefault :: "jsnum list \<Rightarrow> jsnum list" where
  \<comment> \<open>\<open>Array.prototype.sort()\<close> with no comparator: by the strings of the elements\<close>
  "sortDefault xs = sort_key numToString xs"

definition consistencyError :: "string list \<Rightarrow> string \<times> (nat \<times> string) list \<Rightarrow> DatasetValidationError list" where
  \<comment> \<open>the check of one invoice\<close>
  "consistencyError hdrs entry =
     (let (invoiceKey, invoiceRows) = entry in
      if length invoiceRows \<le> 1 then []
      else
        let invoiceTotals = distinctTotals invoiceRows in
        if 1 < length invoiceTotals then
          [\<lparr>type = ''invoice_consistency'',
            invoice_identifier = identifierStr hdrs invoiceKey,
            error = ''Invoice has inconsistent totals: '' @
                    js_join '', '' (map numToString (sortDefault invoiceTotals)),
            affected_rows = map (\<lambda>(rowIndex, invoiceTotal). rowIndex + 1) invoiceRows\<rparr>]
        else [])"

definition validateInvoiceTotalsConsistency :: "string list list \<Rightarrow> string list \<Rightarrow> error + DatasetValidationError list" where
  "validateInvoiceTotalsConsistency dataset hdrs =
     (if ''INVOICE_TOTAL'' \<notin> set hdrs then Inr []
      else if length (availableIdentifiers hdrs) = 0 then Inr []
      else andThen (groupInvoiceTotals hdrs dataset)
             (\<lambda>invoices. Inr (concat (map (consistencyError hdrs) (objectEntries invoices)))))"

definition groupLineItemNumbers :: "nat \<Rightarrow> string list list \<Rightarrow> error + (string \<times> nat list) list" where
  \<comment> \<open>the first loop of \<open>validateUniqueLineItemNumbers\<close>\<close>
  "groupLineItemNumbers lineItemNumberIndex dataset =
     foldThrowing (\<lambda>(rowIndex, rowData) lineItemNumbers.
             let lineItemNumber = elemAt rowData lineItemNumberIndex
             in if lineItemNumber \<noteq> [] \<and> js_trim lineItemNumber \<noteq> []
                then dictPush lineItemNumbers lineItemNumber (rowIndex + 1)
                else Inr lineItemNumbers)
          (enumerate 0 dataset) []"

definition uniquenessError :: "string \<times> nat list \<Rightarrow> DatasetValidationError list" where
  "uniquenessError entry =
     (let (lineItemNumber, rowNumbers) = entry in
      if 1 < length rowNumbers then
        [\<lparr>type = ''line_item_uniqueness'',
          invoice_identifier = ''LINE_ITEM_NUMBER='' @ lineItemNumber,
          error = ''Line item number '' @ lineItemNumber @ '' is not unique'',
          affected_rows = rowNumbers\<rparr>]
      else [])"

definition validateUniqueLineItemNumbers :: "string list list \<Rightarrow> string list \<Rightarrow> error + DatasetValidationError list" where
  "validateUniqueLineItemNumbers dataset hdrs =
     (case indexOf hdrs ''LINE_ITEM_NUMBER'' of
        None \<Rightarrow> Inr []
      | Some lineItemNumberIndex \<Rightarrow>
          andThen (groupLineItemNumbers lineItemNumberIndex dataset)
            (\<lambda>lineItemNumbers.
               Inr (concat (map uniquenessError (objectEntries lineItemNumbers)))))"

definition groupNetTotals :: "string list \<Rightarrow> string list list \<Rightarrow> error + (string \<times> (nat \<times> string \<times> string) list) list" where
  \<comment> \<open>the first loop of \<open>validateInvoiceNetTotalCalculation\<close>\<close>
  "groupNetTotals hdrs dataset =
     foldThrowing (\<lambda>(rowIndex, rowData) invoices.
             let rowDict = rowDictOf hdrs rowData
             in dictPush invoices (invoiceKeyOf hdrs rowDict)
                  (rowIndex, getField rowDict ''INVOICE_NET_TOTAL'',
                   getField rowDict ''LINE_ITEM_TOTAL''))
          (enumerate 0 dataset) []"

definition sumLineItems :: "(nat \<times> string \<times> string) list \<Rightarrow> jsnum \<times> nat" where
  \<comment> \<open>\<open>actualSum\<close> and \<open>validLineItems\<close> after the inner loop\<close>
  "sumLineItems invoiceRows =
     fold (\<lambda>(rowIndex, invoiceNetTotal, lineItemTotal) (actualSum, validLineItems).
             if lineItemTotal \<noteq> [] \<and> js_trim lineItemTotal \<noteq> [] then
               (let lineItemValue = parseFloat (stripNonNumeric lineItemTotal)
                in if \<not> isNaN lineItemValue
                   then (jadd actualSum lineItemValue, validLineItems + 1)
                   else (actualSum, validLineItems))
             else (actualSum, validLineItems))
          invoiceRows (Fin 0, 0)"

definition netTotalError :: "string list \<Rightarrow> string \<times> (nat \<times> string \<times> string) list \<Rightarrow> DatasetValidationError list" where
  \<comment> \<open>the check of one invoice\<close>
  "netTotalError hdrs entry =
     (let (invoiceKey, invoiceRows) = entry in
      case invoiceRows of
        [] \<Rightarrow> []
      | (rowIndex0, expectedNetTotal, lineItemTotal0) # rest \<Rightarrow>
          if expectedNetTotal = [] \<or> js_trim expectedNetTotal = [] then []
          else
            let expectedNetTotalValue = parseFloat (stripNonNumeric expectedNetTotal);
                (actualSum, validLineItems) = sumLineItems invoiceRows
            in if 0 < validLineItems \<and>
                  jgt (jabs (jsub actualSum expectedNetTotalValue)) tolerance
               then
                 [\<lparr>type = ''invoice_net_total_calculation'',
                   invoice_identifier = identifierStr hdrs invoiceKey,
                   error = ''Invoice net total ('' @ numToString expectedNetTotalValue @
                           '') does not equal sum of line item totals ('' @
                           toFixed2 actualSum @ '')'',
                   affected_rows =
                     map (\<lambda>(rowIndex, invoiceNetTotal, lineItemTotal). rowIndex + 1) invoiceRows\<rparr>]
               else [])"

definition validateInvoiceNetTotalCalculation :: "string list list \<Rightarrow> string list \<Rightarrow> error + DatasetValidationError list" where
  "validateInvoiceNetTotalCalculation dataset hdrs =
     (if ''INVOICE_NET_TOTAL'' \<notin> set hdrs \<or> ''LINE_ITEM_TOTAL'' \<notin> set hdrs then Inr []
      else if length (availableIdentifiers hdrs) = 0 then Inr []
      else andThen (groupNetTotals hdrs dataset)
             (\<lambda>invoices. Inr (concat (map (netTotalError hdrs) (objectEntries invoices)))))"

definition validateDataset :: "dateConstructor \<Rightarrow> string list list \<Rightarrow> string list \<Rightarrow> error + ValidationResult" where
  "validateDataset newDate dataset hdrs =
     andThen
       (collectErrors (\<lambda>(rowIndex, rowData).
          andThen (validateRow newDate rowData hdrs)
            (\<lambda>fieldErrors.
               Inr (map (\<lambda>e. e\<lparr>row := Some (rowIndex + 1)\<rparr>) fieldErrors @
                    map (\<lambda>e. e\<lparr>row := Some (rowIndex + 1)\<rparr>)
                        (validateCrossFieldRow newDate rowData hdrs))))
          (enumerate 0 dataset))
       (\<lambda>rowErrors.
     andThen (validateInvoiceTotalsConsistency dataset hdrs) (\<lambda>consistency.
     andThen (validateUniqueLineItemNumbers dataset hdrs) (\<lambda>uniqueness.
     andThen (validateInvoiceNetTotalCalculation dataset hdrs) (\<lambda>netTotals.
       Inr \<lparr>row_errors = rowErrors,
            dataset_errors = consistency @ uniqueness @ netTotals\<rparr>))))"

section \<open>Properties of the file handler\<close>

lemma js_split_not_Nil: "js_split sep s \<noteq> []"
  by (induction s) (auto split: list.splits)

lemma js_split_no_sep: "sep \<notin> set s \<Longrightarrow> js_split sep s = [s]"
  by (induction s) auto

lemma js_split_append_sep:
  "sep \<notin> set x \<Longrightarrow> js_split sep (x @ sep # rest) = x # js_split sep rest"
  by (induction x) auto

lemma js_split_join:
  "xs \<noteq> [] \<Longrightarrow> \<forall>x \<in> set xs. sep \<notin> set x \<Longrightarrow> js_split sep (js_join [sep] xs) = xs"
proof (induction "[sep]" xs rule: js_join.induct)
  case 1
  then show ?case by simp
next
  case (2 x)
  then show ?case by (simp add: js_split_no_sep)
next
  case (3 x y ys)
  then show ?case by (simp add: js_split_append_sep)
qed

lemma set_js_join: "set (js_join sep xs) \<subseteq> set sep \<union> \<Union> (set ` set xs)"
  by (induction sep xs rule: js_join.induct) auto

lemma sep_in_js_join: "2 \<le> length xs \<Longrightarrow> set sep \<subseteq> set (js_join sep xs)"
  by (induction sep xs rule: js_join.induct) auto

lemma js_trim_eq_iff:
  "js_trim s = s \<longleftrightarrow> s = [] \<or> (\<not> isWhiteSpace (hd s) \<and> \<not> isWhiteSpace (last s))"
proof (cases "s = []")
  case True
  then show ?thesis by (simp add: js_trim_def)
next
  case False
  show ?thesis
  proof (cases "isWhiteSpace (hd s)")
    case True
    with False have "length (dropWhile isWhiteSpace s) < length s"
      by (cases s) (auto simp: le_imp_less_Suc length_dropWhile_le)
    moreover have "length (js_trim s) \<le> length (dropWhile isWhiteSpace s)"
      by (simp add: js_trim_def length_dropWhile_le [of _ "rev _", simplified])
    ultimately have "js_trim s \<noteq> s" by auto
    with True False show ?thesis by simp
  next
    case h: False
    with False have d: "dropWhile isWhiteSpace s = s" by (cases s) auto
    show ?thesis
    proof (cases "isWhiteSpace (last s)")
      case True
      with False have "length (dropWhile isWhiteSpace (rev s)) < length (rev s)"
        by (cases "rev s") (auto simp: le_imp_less_Suc length_dropWhile_le last_rev hd_rev dest: arg_cong [where f = hd])
      then have "js_trim s \<noteq> s" using d by (auto simp: js_trim_def dest: arg_cong [where f = length])
      with True False show ?thesis by simp
    next
      case l: False
      with False have "dropWhile isWhiteSpace (rev s) = rev s"
        by (cases "rev s") (auto simp: hd_rev dest: arg_cong [where f = hd])
      with d h l False show ?thesis by (simp add: js_trim_def)
    qed
  qed
qed

lemma js_trim_nonblank: "c \<in> set s \<Longrightarrow> \<not> isWhiteSpace c \<Longrightarrow> js_trim s \<noteq> []"
proof -
  assume c: "c \<in> set s" "\<not> isWhiteSpace c"
  then have "dropWhile isWhiteSpace s \<noteq> []" by auto
  moreover have "c \<in> set (dropWhile isWhiteSpace s)"
    using c by (metis (no_types, lifting) UnE set_append set_takeWhileD takeWhile_dropWhile_id)
  then have "c \<in> set (rev (dropWhile isWhiteSpace s))" by simp
  then have "dropWhile isWhiteSpace (rev (dropWhile isWhiteSpace s)) \<noteq> []"
    using c(2) by (auto simp del: set_rev)
  then show ?thesis by (simp add: js_trim_def)
qed

lemma isVersionLine_no_pipe: "isVersionLine s \<Longrightarrow> CHR ''|'' \<notin> set s"
proof -
  assume v: "isVersionLine s"
  define r where "r = drop 9 s"
  define r1 where "r1 = dropWhile isWhiteSpace r"
  from v have "take 9 s = ''LEDES98BI''"
    by (simp add: isVersionLine_def js_startsWith_def eval_nat_numeral)
  then have s: "set s = set ''LEDES98BI'' \<union> set r"
    unfolding r_def by (metis append_take_drop_id set_append)
  from v obtain r2 where r1: "r1 = CHR ''V'' # r2" and r3: "dropWhile isDigit r2 = ''[]''"
    by (auto simp: isVersionLine_def Let_def r_def r1_def split: list.splits)
  have "set r = set (takeWhile isWhiteSpace r) \<union> set r1"
    unfolding r1_def by (metis set_append takeWhile_dropWhile_id)
  moreover have "set r2 = set (takeWhile isDigit r2) \<union> set ''[]''"
    using r3 by (metis set_append takeWhile_dropWhile_id)
  moreover have "CHR ''|'' \<notin> set (takeWhile isWhiteSpace r)"
    by (auto dest!: set_takeWhileD simp: isWhiteSpace_def)
  moreover have "CHR ''|'' \<notin> set (takeWhile isDigit r2)"
    by (auto dest!: set_takeWhileD simp: isDigit_def)
  ultimately have "CHR ''|'' \<notin> set r" using r1 by simp
  with s show ?thesis by auto
qed

lemma hd_js_join:
  assumes "2 \<le> length xs"
  shows "hd (js_join ''|'' xs) = (if hd xs = [] then CHR ''|'' else hd (hd xs))"
proof (cases xs)
  case Nil
  with assms show ?thesis by simp
next
  case (Cons x ys)
  with assms show ?thesis by (cases ys) auto
qed

lemma last_js_join:
  "2 \<le> length xs \<Longrightarrow> last (js_join ''|'' xs) = (if last xs = [] then CHR ''|'' else last (last xs))"
proof (induction "''|''" xs rule: js_join.induct)
  case 1
  then show ?case by simp
next
  case (2 x)
  then show ?case by simp
next
  case (3 x y ys)
  show ?case
  proof (cases ys)
    case Nil
    then show ?thesis by simp
  next
    case (Cons z zs)
    with 3 have "last (js_join ''|'' (y # ys)) = (if last (y # ys) = [] then CHR ''|'' else last (last (y # ys)))"
      by simp
    moreover have "js_join ''|'' (y # ys) \<noteq> []" using Cons by simp
    ultimately show ?thesis by simp
  qed
qed

lemma js_trim_js_join:
  assumes "2 \<le> length xs" and "\<forall>x \<in> set xs. js_trim x = x"
  shows "js_trim (js_join ''|'' xs) = js_join ''|'' xs"
proof -
  have p: "\<not> isWhiteSpace CHR ''|''" by (simp add: isWhiteSpace_def)
  from assms(1) have ne: "xs \<noteq> []" by auto
  then have "hd xs \<in> set xs" "last xs \<in> set xs" by simp_all
  with assms(2) have "js_trim (hd xs) = hd xs" "js_trim (last xs) = last xs" by simp_all
  then have "hd xs = [] \<or> \<not> isWhiteSpace (hd (hd xs))" "last xs = [] \<or> \<not> isWhiteSpace (last (last xs))"
    by (auto simp: js_trim_eq_iff)
  with p have "\<not> isWhiteSpace (hd (js_join ''|'' xs))" "\<not> isWhiteSpace (last (js_join ''|'' xs))"
    by (auto simp: hd_js_join [OF assms(1)] last_js_join [OF assms(1)])
  then show ?thesis by (simp add: js_trim_eq_iff)
qed

lemma header_line_facts:
  "CHR ''|'' \<in> set (js_join ''|'' (map (\<lambda>h. h @ ''[]'') LEDES_HEADERS))"
  "\<not> isVersionLine (js_join ''|'' (map (\<lambda>h. h @ ''[]'') LEDES_HEADERS))"
  "CHR 0x0A \<notin> set (js_join ''|'' (map (\<lambda>h. h @ ''[]'') LEDES_HEADERS))"
  "js_trim (js_join ''|'' (map (\<lambda>h. h @ ''[]'') LEDES_HEADERS)) \<noteq> []"
  "map cleanHeader (js_split CHR ''|'' (js_join ''|'' (map (\<lambda>h. h @ ''[]'') LEDES_HEADERS))) = LEDES_HEADERS"
  "distinct LEDES_HEADERS"
  "length LEDES_HEADERS = 53"
  "''__proto__'' \<notin> set LEDES_HEADERS"
  by code_simp+

lemma elemAt_pad: "elemAt (xs @ replicate k []) i = elemAt xs i"
  by (simp add: elemAt_def nth_append)

lemma dom_fold_assign:
  "dom (fold (\<lambda>(i, header) rw. rw(header \<mapsto> f i)) (enumerate n hs) m) = dom m \<union> set hs"
  by (induction hs arbitrary: n m) auto

lemma fold_assign_other:
  "h \<notin> set hs \<Longrightarrow> fold (\<lambda>(i, header) rw. rw(header \<mapsto> f i)) (enumerate n hs) m h = m h"
  by (induction hs arbitrary: n m) auto

lemma fold_assign_last:
  "i < length hs \<Longrightarrow> (\<forall>j. i < j \<and> j < length hs \<longrightarrow> hs ! j \<noteq> hs ! i) \<Longrightarrow>
   fold (\<lambda>(i, header) rw. rw(header \<mapsto> f i)) (enumerate n hs) m (hs ! i) = Some (f (n + i))"
proof (induction hs arbitrary: n m i)
  case Nil
  then show ?case by simp
next
  case (Cons h hs)
  show ?case
  proof (cases i)
    case 0
    have "h \<notin> set hs"
    proof
      assume "h \<in> set hs"
      then obtain k where "k < length hs" "hs ! k = h" by (auto simp: in_set_conv_nth)
      with Cons.prems(2) 0 show False by (auto dest: spec [of _ "Suc k"])
    qed
    then have "fold (\<lambda>(i, header) rw. rw(header \<mapsto> f i)) (enumerate (Suc n) hs) (m(h \<mapsto> f n)) h
                 = (m(h \<mapsto> f n)) h"
      by (rule fold_assign_other)
    with 0 show ?thesis by (simp del: fun_upd_apply) simp
  next
    case (Suc k)
    have "\<forall>j. k < j \<and> j < length hs \<longrightarrow> hs ! j \<noteq> hs ! k"
      using Cons.prems(2) Suc by (auto dest: spec [of _ "Suc j" for j])
    with Cons.IH [of k "Suc n"] Cons.prems(1) Suc show ?thesis by simp
  qed
qed

lemma fold_assignKey:
  "''__proto__'' \<notin> set hs \<Longrightarrow>
   fold (\<lambda>(i, header) rw. assignKey rw header (f i)) (enumerate n hs) m =
   fold (\<lambda>(i, header) rw. rw(header \<mapsto> f i)) (enumerate n hs) m"
  by (induction hs arbitrary: n m) (auto simp: assignKey_def)

lemma dom_parseRow: "''__proto__'' \<notin> set hdrs \<Longrightarrow> dom (parseRow hdrs line) = set hdrs"
  by (simp add: parseRow_def Let_def fold_assignKey dom_fold_assign)

lemma parseRow_at:
  "''__proto__'' \<notin> set hdrs \<Longrightarrow> i < length hdrs \<Longrightarrow>
   (\<forall>j. i < j \<and> j < length hdrs \<longrightarrow> hdrs ! j \<noteq> hdrs ! i) \<Longrightarrow>
   parseRow hdrs line (hdrs ! i) = Some (js_trim (elemAt (js_split CHR ''|'' line) i))"
  by (simp add: parseRow_def Let_def fold_assignKey fold_assign_last [where n = 0, simplified]
        elemAt_pad)

lemma parseFile_cases:
  "parseFile content = Inl FileIsEmpty \<and> nonBlankLines content = [] \<or>
   (\<exists>hdrs k. nonBlankLines content \<noteq> [] \<and> parseFile content =
      Inr \<lparr>headers = hdrs,
           rows = map (parseRow hdrs) (filter keepDataLine (drop k (nonBlankLines content)))\<rparr>)"
proof (cases "nonBlankLines content = []")
  case True
  then show ?thesis by (simp add: parseFile_def)
next
  case False
  obtain hdrs k where
    "(case findHeaderLine 0 (take 3 (nonBlankLines content)) of
        Some (headerLine, i) \<Rightarrow>
          if headerLine \<noteq> [] \<and> CHR ''|'' \<in> set headerLine
          then (map cleanHeader (js_split CHR ''|'' headerLine), i)
          else (LEDES_HEADERS, 0)
      | None \<Rightarrow> (LEDES_HEADERS, 0)) = (hdrs, k)"
    by (cases "(case findHeaderLine 0 (take 3 (nonBlankLines content)) of
        Some (headerLine, i) \<Rightarrow>
          if headerLine \<noteq> [] \<and> CHR ''|'' \<in> set headerLine
          then (map cleanHeader (js_split CHR ''|'' headerLine), i)
          else (LEDES_HEADERS, 0)
      | None \<Rightarrow> (LEDES_HEADERS, 0))") auto
  with False have "parseFile content =
      Inr \<lparr>headers = hdrs,
           rows = map (parseRow hdrs) (filter keepDataLine (drop k (nonBlankLines content)))\<rparr>"
    by (simp add: parseFile_def Let_def)
  with False show ?thesis by blast
qed

lemma js_trim_idem: "js_trim (js_trim s) = js_trim s"
proof (cases "js_trim s = []")
  case True
  have "js_trim [] = []" by (simp add: js_trim_def)
  with True show ?thesis by simp
next
  case False
  define t where "t = dropWhile isWhiteSpace s"
  have js: "js_trim s = rev (dropWhile isWhiteSpace (rev t))" by (simp add: js_trim_def t_def)
  with False have tne: "dropWhile isWhiteSpace (rev t) \<noteq> []" by simp
  then have "\<not> isWhiteSpace (hd (dropWhile isWhiteSpace (rev t)))" by (rule hd_dropWhile)
  then have l: "\<not> isWhiteSpace (last (js_trim s))" using tne by (simp add: js last_rev)
  from tne have "t \<noteq> []" by auto
  then have ht: "\<not> isWhiteSpace (hd t)" unfolding t_def by (rule hd_dropWhile)
  have "rev t = takeWhile isWhiteSpace (rev t) @ dropWhile isWhiteSpace (rev t)" by simp
  then have "t = js_trim s @ rev (takeWhile isWhiteSpace (rev t))"
    by (metis js rev_append rev_rev_ident)
  with False have "hd t = hd (js_trim s)" by (metis hd_append2)
  with ht l False show ?thesis by (simp add: js_trim_eq_iff)
qed

lemma roundtrip_row:
  assumes dom: "dom rw = set LEDES_HEADERS"
    and vals: "\<forall>v \<in> ran rw. CHR ''|'' \<notin> set v \<and> CHR 0x0A \<notin> set v \<and> js_trim v = v"
    and nb: "\<exists>v \<in> ran rw. \<not> js_endsWith ''[]'' v"
  shows "CHR 0x0A \<notin> set (formatRow LEDES_HEADERS rw)" and "js_trim (formatRow LEDES_HEADERS rw) \<noteq> []"
    and "keepDataLine (formatRow LEDES_HEADERS rw)" and "parseRow LEDES_HEADERS (formatRow LEDES_HEADERS rw) = rw"
proof -
  define rd where "rd = (\<lambda>header. case rw header of
                                  Some v \<Rightarrow> v
                                | None \<Rightarrow> if header \<in> set objectPrototypeKeys
                                          then inheritedText header else [])"
  define vs where "vs = map rd LEDES_HEADERS"
  have line: "formatRow LEDES_HEADERS rw = js_join ''|'' vs"
    by (simp add: formatRow_def vs_def rd_def)
  have len: "length vs = 53" by (simp add: vs_def header_line_facts)
  then have len2: "2 \<le> length vs" and ne: "vs \<noteq> []" by auto
  have in_ran: "v \<in> ran rw" if "v \<in> set vs" for v
  proof -
    from that obtain h where h: "h \<in> set LEDES_HEADERS" "v = rd h"
      by (auto simp: vs_def)
    with dom obtain w where "rw h = Some w" by auto
    with h show ?thesis by (auto simp: ran_def rd_def)
  qed
  with vals have vs: "\<forall>v \<in> set vs. CHR ''|'' \<notin> set v \<and> CHR 0x0A \<notin> set v \<and> js_trim v = v" by blast
  have pipe: "CHR ''|'' \<in> set (formatRow LEDES_HEADERS rw)"
    using sep_in_js_join [OF len2, of "''|''"] by (simp add: line)
  show nl: "CHR 0x0A \<notin> set (formatRow LEDES_HEADERS rw)"
    using set_js_join [of "''|''" vs] vs by (auto simp: line)
  have tr: "js_trim (formatRow LEDES_HEADERS rw) = formatRow LEDES_HEADERS rw"
    unfolding line using len2 vs by (intro js_trim_js_join) auto
  from pipe have lne: "formatRow LEDES_HEADERS rw \<noteq> []" by auto
  with tr show "js_trim (formatRow LEDES_HEADERS rw) \<noteq> []" by simp
  have split: "js_split CHR ''|'' (formatRow LEDES_HEADERS rw) = vs"
    unfolding line using ne vs by (intro js_split_join) auto
  from nb obtain v h where v: "rw h = Some v" "\<not> js_endsWith ''[]'' v" by (auto simp: ran_def)
  with dom have "h \<in> set LEDES_HEADERS" by auto
  with v have vin: "v \<in> set vs" by (force simp: vs_def rd_def)
  with vs have "js_trim v = v" by blast
  with v vin have "\<not> list_all (\<lambda>field. js_endsWith ''[]'' (js_trim field)) vs"
    unfolding list_all_iff by metis
  with pipe lne show "keepDataLine (formatRow LEDES_HEADERS rw)"
    by (auto simp: keepDataLine_def tr split dest: isVersionLine_no_pipe)
  show "parseRow LEDES_HEADERS (formatRow LEDES_HEADERS rw) = rw"
  proof
    fix h
    show "parseRow LEDES_HEADERS (formatRow LEDES_HEADERS rw) h = rw h"
    proof (cases "h \<in> set LEDES_HEADERS")
      case False
      with dom have "rw h = None" by auto
      moreover from False have "parseRow LEDES_HEADERS (formatRow LEDES_HEADERS rw) h = None"
        using dom_parseRow [OF header_line_facts(8), of "formatRow LEDES_HEADERS rw"] by auto
      ultimately show ?thesis by simp
    next
      case True
      then obtain i where i: "i < length LEDES_HEADERS" "LEDES_HEADERS ! i = h"
        by (auto simp: in_set_conv_nth)
      have "\<forall>j. i < j \<and> j < length LEDES_HEADERS \<longrightarrow> LEDES_HEADERS ! j \<noteq> LEDES_HEADERS ! i"
        using header_line_facts(6) i(1) by (auto simp: distinct_conv_nth)
      with i have p: "parseRow LEDES_HEADERS (formatRow LEDES_HEADERS rw) h = Some (js_trim (elemAt vs i))"
        using parseRow_at [OF header_line_facts(8), of i "formatRow LEDES_HEADERS rw"]
        by (simp add: split)
      from True dom obtain w where w: "rw h = Some w" by auto
      with i have "elemAt vs i = w" by (simp add: elemAt_def vs_def rd_def)
      moreover have "js_trim w = w" using w vals by (auto simp: ran_def)
      ultimately show ?thesis using p w by simp
    qed
  qed
qed

lemma parseFile_with_header:
  assumes "nonBlankLines content = ls" and "ls \<noteq> []"
    and "findHeaderLine 0 (take 3 ls) = Some (hl, i)"
    and "hl \<noteq> []" and "CHR ''|'' \<in> set hl"
    and "map cleanHeader (js_split CHR ''|'' hl) = hdrs"
    and "filter keepDataLine (drop i ls) = kept"
  shows "parseFile content = Inr \<lparr>headers = hdrs, rows = map (parseRow hdrs) kept\<rparr>"
  using assms by (simp add: parseFile_def)

lemma parseFile_Inr_rowsD:
  assumes "parseFile content = Inr d" and "rw \<in> set (rows d)"
  shows "\<exists>line. rw = parseRow (headers d) line"
proof -
  from parseFile_cases [of content] assms(1) obtain hdrs k where
    d: "d = \<lparr>headers = hdrs,
             rows = map (parseRow hdrs) (filter keepDataLine (drop k (nonBlankLines content)))\<rparr>"
    by auto
  with assms(2) show ?thesis by auto
qed

lemma js_trim_example: "js_trim '' x'' = ''x''"
  by code_simp


text \<open>
  Claim C3 (as amended). Serialising and parsing again gives the same dataset when the
  header list is \<open>LEDES_HEADERS\<close>, every record has exactly the headers as keys, no
  value contains a pipe or a newline, every value is already trimmed (\<open>parseFile\<close>
  trims each field), and no record has all its values ending in \<open>[]\<close> (such a data
  line is dropped as a second header line).
\<close>

theorem parseFile_formatForDownload:
  assumes hd: "headers d = LEDES_HEADERS"
    and dom: "\<forall>rw \<in> set (rows d). dom rw = set LEDES_HEADERS"
    and vals: "\<forall>rw \<in> set (rows d). \<forall>v \<in> ran rw.
                 CHR ''|'' \<notin> set v \<and> CHR 0x0A \<notin> set v \<and> js_trim v = v"
    and nb: "\<forall>rw \<in> set (rows d). \<exists>v \<in> ran rw. \<not> js_endsWith ''[]'' v"
  shows "parseFile (formatForDownload d) = Inr d"
proof -
  define hl where "hl = js_join ''|'' (map (\<lambda>h. h @ ''[]'') LEDES_HEADERS)"
  define ls where "ls = map (formatRow LEDES_HEADERS) (rows d)"
  have rw: "CHR 0x0A \<notin> set l \<and> js_trim l \<noteq> [] \<and> keepDataLine l" if "l \<in> set ls" for l
    using that dom vals nb roundtrip_row(1-3) by (auto simp: ls_def)
  have fmt: "formatForDownload d = js_join [CHR 0x0A] (hl # ls)"
    by (simp add: formatForDownload_def hd hl_def ls_def)
  have "js_split CHR 0x0A (formatForDownload d) = hl # ls"
    unfolding fmt using rw header_line_facts(3) by (intro js_split_join) (auto simp: hl_def)
  then have lines: "nonBlankLines (formatForDownload d) = hl # ls"
    using rw header_line_facts(4) by (simp add: nonBlankLines_def hl_def [symmetric] filter_id_conv)
  have hfacts: "CHR ''|'' \<in> set hl" "\<not> isVersionLine hl" "hl \<noteq> []"
    "map cleanHeader (js_split CHR ''|'' hl) = LEDES_HEADERS"
    using header_line_facts(1,2,5) by (auto simp: hl_def)
  have keep: "filter keepDataLine ls = ls" using rw by (simp add: filter_id_conv)
  have bk: "map (parseRow LEDES_HEADERS) ls = rows d"
    unfolding ls_def using dom vals nb by (simp add: map_idI roundtrip_row(4))
  have "parseFile (formatForDownload d) = Inr \<lparr>headers = LEDES_HEADERS, rows = rows d\<rparr>"
    by (simp add: parseFile_def lines hfacts keep bk)
  with hd show ?thesis by simp
qed


text \<open>A record that meets these conditions, and its round trip.\<close>

theorem parseFile_formatForDownload_witness:
  "parseFile (formatForDownload
      \<lparr>headers = LEDES_HEADERS,
       rows = [map_of (zip LEDES_HEADERS (''20240101'' # replicate 52 []))]\<rparr>)
   = Inr \<lparr>headers = LEDES_HEADERS,
           rows = [map_of (zip LEDES_HEADERS (''20240101'' # replicate 52 []))]\<rparr>"
proof -
  let ?rw = "map_of (zip LEDES_HEADERS (''20240101'' # replicate 52 []))"
  let ?d = "\<lparr>headers = LEDES_HEADERS, rows = [?rw]\<rparr>"
  have len: "length LEDES_HEADERS = length (''20240101'' # replicate 52 ([]::string))"
    by (simp add: header_line_facts(7))
  have d: "dom ?rw = set LEDES_HEADERS"
    using len by (simp only: dom_map_of_zip)
  have r: "ran ?rw \<subseteq> {''20240101'', []}"
    using ran_map_of_zip [OF len header_line_facts(6)] by auto
  have t: "js_trim ''20240101'' = ''20240101''" "js_trim [] = []" by code_simp+
  have "?rw ''INVOICE_NUMBER'' = Some []" by code_simp
  then have e: "[] \<in> ran ?rw" by (auto simp: ran_def)
  have h1: "headers ?d = LEDES_HEADERS" by simp
  have h2: "\<forall>rw \<in> set (rows ?d). dom rw = set LEDES_HEADERS" using d by simp
  have h3: "\<forall>rw \<in> set (rows ?d). \<forall>v \<in> ran rw.
                 CHR ''|'' \<notin> set v \<and> CHR 0x0A \<notin> set v \<and> js_trim v = v"
    using r t by auto
  have h4: "\<forall>rw \<in> set (rows ?d). \<exists>v \<in> ran rw. \<not> js_endsWith ''[]'' v"
    using e by (auto simp: js_endsWith_def intro!: bexI [of _ "[]"])
  from parseFile_formatForDownload [OF h1 h2 h3 h4] show ?thesis .
qed

text \<open>
  Without the trimming condition the round trip fails: a value with a leading blank comes
  back trimmed.
\<close>

theorem parseFile_formatForDownload_counterexample:
  "parseFile (formatForDownload
      \<lparr>headers = LEDES_HEADERS,
       rows = [map_of (zip LEDES_HEADERS ('' x'' # replicate 52 []))]\<rparr>)
   \<noteq> Inr \<lparr>headers = LEDES_HEADERS,
           rows = [map_of (zip LEDES_HEADERS ('' x'' # replicate 52 []))]\<rparr>"
proof
  let ?rw = "map_of (zip LEDES_HEADERS ('' x'' # replicate 52 []))"
  let ?d = "\<lparr>headers = LEDES_HEADERS, rows = [?rw]\<rparr>"
  assume eq: "parseFile (formatForDownload ?d) = Inr ?d"
  have "?rw \<in> set (rows ?d)" by simp
  from parseFile_Inr_rowsD [OF eq this] obtain line where line: "?rw = parseRow LEDES_HEADERS line"
    by auto
  have h0: "LEDES_HEADERS ! 0 = ''INVOICE_DATE''" by (simp add: LEDES_HEADERS_def)
  have "\<forall>j. 0 < j \<and> j < length LEDES_HEADERS \<longrightarrow> LEDES_HEADERS ! j \<noteq> LEDES_HEADERS ! 0"
    using header_line_facts(6,7) by (auto simp: distinct_conv_nth)
  then have "parseRow LEDES_HEADERS line ''INVOICE_DATE''
      = Some (js_trim (elemAt (js_split CHR ''|'' line) 0))"
    using parseRow_at [OF header_line_facts(8), of 0 line] header_line_facts(7) h0 by simp
  moreover have "?rw ''INVOICE_DATE'' = Some '' x''" by (simp add: LEDES_HEADERS_def)
  ultimately have "'' x'' = js_trim (elemAt (js_split CHR ''|'' line) 0)" using line by simp
  then have "js_trim '' x'' = '' x''" by (metis js_trim_idem)
  then show False by (simp add: js_trim_example)
qed


lemma js_trim_blank_iff: "js_trim s = [] \<longleftrightarrow> (\<forall>c \<in> set s. isWhiteSpace c)"
proof
  assume "\<forall>c \<in> set s. isWhiteSpace c"
  then have d: "dropWhile isWhiteSpace s = []" by simp
  show "js_trim s = []" unfolding js_trim_def d by simp
next
  assume "js_trim s = []"
  then have "\<forall>c \<in> set (dropWhile isWhiteSpace s). isWhiteSpace c"
    by (simp add: js_trim_def)
  then have "dropWhile isWhiteSpace s = []"
    by (metis hd_dropWhile hd_in_set)
  then show "\<forall>c \<in> set s. isWhiteSpace c" by (induction s) (auto split: if_splits)
qed

lemma set_js_split: "\<Union> (set ` set (js_split sep s)) = set s - {sep}"
proof (induction s)
  case Nil
  then show ?case by simp
next
  case (Cons c s)
  obtain w ws where w: "js_split sep s = w # ws" by (cases "js_split sep s") (simp_all add: js_split_not_Nil)
  with Cons show ?case by auto
qed

lemma nonBlankLines_empty_iff:
  "nonBlankLines content = [] \<longleftrightarrow> (\<forall>c \<in> set content. isWhiteSpace c)"
proof -
  have "isWhiteSpace CHR 0x0A" by (simp add: isWhiteSpace_def)
  then have "(\<forall>c \<in> set content - {CHR 0x0A}. isWhiteSpace c) \<longleftrightarrow> (\<forall>c \<in> set content. isWhiteSpace c)"
    by auto
  moreover have "nonBlankLines content = [] \<longleftrightarrow>
      (\<forall>c \<in> \<Union> (set ` set (js_split CHR 0x0A content)). isWhiteSpace c)"
    by (auto simp: nonBlankLines_def filter_empty_conv js_trim_blank_iff)
  ultimately show ?thesis by (simp only: set_js_split)
qed


text \<open>
  Claim C9. \<open>parseFile\<close> throws its "File is empty" error exactly when no line is left
  after the blank (whitespace-only) lines are discarded, which is when the content
  consists of whitespace only; on every other input it returns a dataset.
\<close>

theorem parseFile_empty_input:
  "(parseFile content = Inl FileIsEmpty \<longleftrightarrow> nonBlankLines content = []) \<and>
   (nonBlankLines content = [] \<longleftrightarrow> (\<forall>c \<in> set content. isWhiteSpace c)) \<and>
   (nonBlankLines content \<noteq> [] \<longrightarrow> (\<exists>d. parseFile content = Inr d))"
  using parseFile_cases [of content] nonBlankLines_empty_iff [of content] by auto

theorem parseFile_empty_input_witness:
  "parseFile '' '' = Inl FileIsEmpty \<and> nonBlankLines ''a|b'' \<noteq> [] \<and>
   (\<exists>d. parseFile ''a|b'' = Inr d)"
proof -
  have e: "nonBlankLines '' '' = []" by code_simp
  have n: "nonBlankLines ''a|b'' \<noteq> []" by code_simp
  from e n parseFile_empty_input [of "'' ''"] parseFile_empty_input [of "''a|b''"]
  show ?thesis by blast
qed

text \<open>
  Claim C10 (as amended). When the header names of a parsed dataset are pairwise
  different and none of them is \<open>__proto__\<close>, every record has exactly one value per
  header: its keys are the headers, as many as the header list is long, and the value
  under the header at a position is the trimmed field at that position of the data
  line, or the empty string when the line has fewer fields; fields beyond the header
  list are stored nowhere.
\<close>

theorem parseFile_rows_match_headers:
  assumes "parseFile content = Inr d" and "rw \<in> set (rows d)"
    and "distinct (headers d)" and "''__proto__'' \<notin> set (headers d)"
  shows "dom rw = set (headers d) \<and> card (dom rw) = length (headers d) \<and>
         (\<exists>line \<in> set (nonBlankLines content).
            \<forall>i < length (headers d).
              rw (headers d ! i) =
                Some (if i < length (js_split CHR ''|'' line)
                      then js_trim (js_split CHR ''|'' line ! i) else []))"
proof -
  from parseFile_cases [of content] assms(1) obtain hdrs k where
    d: "d = \<lparr>headers = hdrs,
             rows = map (parseRow hdrs) (filter keepDataLine (drop k (nonBlankLines content)))\<rparr>"
    by auto
  with assms(2) obtain line where
    line: "line \<in> set (drop k (nonBlankLines content))" "rw = parseRow hdrs line"
    by auto
  from d assms(3,4) have h: "distinct hdrs" "''__proto__'' \<notin> set hdrs" by simp_all
  from line(1) have l: "line \<in> set (nonBlankLines content)" by (rule in_set_dropD)
  have t: "js_trim [] = []" by (simp add: js_trim_def)
  have dm: "dom rw = set hdrs" using line(2) h(2) by (simp add: dom_parseRow)
  then have cd: "card (dom rw) = length hdrs" using h(1) by (simp add: distinct_card)
  have "rw (hdrs ! i) =
          Some (if i < length (js_split CHR ''|'' line)
                then js_trim (js_split CHR ''|'' line ! i) else [])" if "i < length hdrs" for i
  proof -
    have "\<forall>j. i < j \<and> j < length hdrs \<longrightarrow> hdrs ! j \<noteq> hdrs ! i"
      using h(1) that by (auto simp: distinct_conv_nth)
    with parseRow_at [OF h(2) that, of line] line(2) t show ?thesis by (simp add: elemAt_def)
  qed
  with l dm cd d show ?thesis by auto
qed

text \<open>A short line is padded and a long line is cut to the three headers.\<close>

theorem parseFile_rows_match_headers_witness:
  "parseFile (''A[]|B[]|C[]'' @ [CHR 0x0A] @ ''p | q'' @ [CHR 0x0A] @ ''1|2|3|4'') =
     Inr \<lparr>headers = [''A'', ''B'', ''C''],
          rows = [parseRow [''A'', ''B'', ''C''] ''p | q'',
                  parseRow [''A'', ''B'', ''C''] ''1|2|3|4'']\<rparr> \<and>
   dom (parseRow [''A'', ''B'', ''C''] ''p | q'') = {''A'', ''B'', ''C''} \<and>
   card (dom (parseRow [''A'', ''B'', ''C''] ''p | q'')) = 3 \<and>
   dom (parseRow [''A'', ''B'', ''C''] ''1|2|3|4'') = {''A'', ''B'', ''C''} \<and>
   parseRow [''A'', ''B'', ''C''] ''p | q'' ''B'' = Some ''q'' \<and>
   parseRow [''A'', ''B'', ''C''] ''p | q'' ''C'' = Some [] \<and>
   parseRow [''A'', ''B'', ''C''] ''1|2|3|4'' ''C'' = Some ''3''"
proof -
  let ?c = "''A[]|B[]|C[]'' @ [CHR 0x0A] @ ''p | q'' @ [CHR 0x0A] @ ''1|2|3|4''"
  let ?H = "[''A'', ''B'', ''C'']"
  let ?d = "\<lparr>headers = ?H, rows = [parseRow ?H ''p | q'', parseRow ?H ''1|2|3|4'']\<rparr>"
  have l: "nonBlankLines ?c = [''A[]|B[]|C[]'', ''p | q'', ''1|2|3|4'']" by code_simp
  have f: "findHeaderLine 0 (take 3 [''A[]|B[]|C[]'', ''p | q'', ''1|2|3|4'']) =
             Some (''A[]|B[]|C[]'', 1)"
    by code_simp
  have h: "map cleanHeader (js_split CHR ''|'' ''A[]|B[]|C[]'') = ?H" by code_simp
  have k: "filter keepDataLine (drop 1 [''A[]|B[]|C[]'', ''p | q'', ''1|2|3|4'']) =
             [''p | q'', ''1|2|3|4'']"
    by code_simp
  have p: "parseFile ?c = Inr ?d"
    using parseFile_with_header [OF l _ f _ _ h k] by simp
  have r1: "parseRow ?H ''p | q'' \<in> set (rows ?d)" and r2: "parseRow ?H ''1|2|3|4'' \<in> set (rows ?d)"
    by simp_all
  have dh: "distinct (headers ?d)" "''__proto__'' \<notin> set (headers ?d)" by simp_all
  have np: "''__proto__'' \<notin> set ?H" by simp
  have v: "js_trim (elemAt (js_split CHR ''|'' ''p | q'') 1) = ''q''"
    "js_trim (elemAt (js_split CHR ''|'' ''p | q'') 2) = []"
    "js_trim (elemAt (js_split CHR ''|'' ''1|2|3|4'') 2) = ''3''"
    by code_simp+
  have a: "parseRow ?H ''p | q'' ''B'' = Some ''q''" "parseRow ?H ''p | q'' ''C'' = Some []"
    "parseRow ?H ''1|2|3|4'' ''C'' = Some ''3''"
    using parseRow_at [OF np, of 1 "''p | q''"] parseRow_at [OF np, of 2 "''p | q''"]
      parseRow_at [OF np, of 2 "''1|2|3|4''"] v
    by simp_all
  from parseFile_rows_match_headers [OF p r1 dh] parseFile_rows_match_headers [OF p r2 dh] p a
  show ?thesis by simp
qed

text \<open>
  With a repeated header name the claim as stated fails: the record of the line
  \<open>1|2|3\<close> under the headers \<open>A|A|B\<close> has two values for three headers, and the field
  \<open>1\<close>, at a position within the header list, is stored nowhere.
\<close>

theorem parseFile_rows_match_headers_counterexample:
  "parseFile (''A|A|B'' @ [CHR 0x0A] @ ''1|2|3'') =
     Inr \<lparr>headers = [''A'', ''A'', ''B''], rows = [[''A'' \<mapsto> ''2'', ''B'' \<mapsto> ''3'']]\<rparr>"
proof -
  let ?c = "''A|A|B'' @ [CHR 0x0A] @ ''1|2|3''"
  let ?H = "[''A'', ''A'', ''B'']"
  have l: "nonBlankLines ?c = [''A|A|B'', ''1|2|3'']" by code_simp
  have f: "findHeaderLine 0 (take 3 [''A|A|B'', ''1|2|3'']) = Some (''A|A|B'', 1)" by code_simp
  have h: "map cleanHeader (js_split CHR ''|'' ''A|A|B'') = ?H" by code_simp
  have k: "filter keepDataLine (drop 1 [''A|A|B'', ''1|2|3'']) = [''1|2|3'']" by code_simp
  have p: "parseFile ?c = Inr \<lparr>headers = ?H, rows = [parseRow ?H ''1|2|3'']\<rparr>"
    using parseFile_with_header [OF l _ f _ _ h k] by simp
  have s: "js_split CHR ''|'' ''1|2|3'' = [''1'', ''2'', ''3'']" by code_simp
  have t: "js_trim ''1'' = ''1''" "js_trim ''2'' = ''2''" "js_trim ''3'' = ''3''" by code_simp+
  have "parseRow ?H ''1|2|3'' = [''A'' \<mapsto> ''2'', ''B'' \<mapsto> ''3'']"
    by (simp add: parseRow_def s assignKey_def elemAt_def t)
  with p show ?thesis by simp
qed

section \<open>The rounding error of the number model\<close>






















section \<open>The number model on known values\<close>

lemma number_examples:
  "parseFloat '' 12.5abc'' = Fin (25 / 2)"
  "parseFloat ''abc'' = NaN"
  "parseFloat (stripNonNumeric ''$1,250.00'') = Fin 1250"
  "numToString (parseFloat ''0.1'') = ''0.1''"
  "numToString (parseFloat ''100.00'') = ''100''"
  "numToString (parseFloat ''1e21'') = ''1e+21''"
  "toFixed2 (parseFloat ''1.005'') = ''1.00''"
  "toFixed2 (parseFloat ''0.125'') = ''0.13''"
  by code_simp+

text \<open>
  Rounding is visible: 0.1 + 0.2 is not 0.3, and 100.01 - 100 exceeds the tolerance 0.01
  while 0.01 - 0 does not.
\<close>

lemma rounding_examples:
  "jadd (parseFloat ''0.1'') (parseFloat ''0.2'') = parseFloat ''0.30000000000000004''"
  "jadd (parseFloat ''0.1'') (parseFloat ''0.2'') \<noteq> parseFloat ''0.3''"
  "jgt (jsub (parseFloat ''100.01'') (parseFloat ''100'')) tolerance"
  "\<not> jgt (jsub (parseFloat ''0.01'') (parseFloat ''0'')) tolerance"
  "parseFloat ''9007199254740993'' = Fin 9007199254740992"
  by code_simp+

section \<open>Properties of the row rules\<close>

lemma fieldError_sel [simp]:
  "field (fieldError hdrs name v message) = name"
  "column (fieldError hdrs name v message) = columnOf hdrs name"
  "value (fieldError hdrs name v message) = v"
  "ValidationError.error (fieldError hdrs name v message) = message"
  by (simp_all add: fieldError_def)




lemma validateCrossFieldRow_no_billing_start:
  "getField (rowDictOf hdrs rowData) ''BILLING_START_DATE'' = [] \<Longrightarrow>
   validateCrossFieldRow newDate rowData hdrs = validateCrossFieldRow utcDate rowData hdrs"
  by (simp add: validateCrossFieldRow_def billingRangeErrors_def Let_def)






lemma dom_fold_assignKey:
  "dom (fold (\<lambda>(i, header) rw. assignKey rw header (f i)) (enumerate n hs) m) \<subseteq> dom m \<union> set hs"
proof (induction hs arbitrary: n m)
  case Nil
  then show ?case by simp
next
  case (Cons h hs)
  have "dom (assignKey m h (f n)) \<subseteq> insert h (dom m)" by (auto simp: assignKey_def)
  with Cons [of "Suc n" "assignKey m h (f n)"] show ?case by auto
qed

lemma rowDictOf_absent: "name \<notin> set hdrs \<Longrightarrow> rowDictOf hdrs rowData name = None"
  using dom_fold_assignKey [of "elemAt rowData" 0 hdrs Map.empty] by (auto simp: rowDictOf_def)

lemma getField_absent: "name \<notin> set hdrs \<Longrightarrow> getField (rowDictOf hdrs rowData) name = []"
  by (simp add: getField_def rowDictOf_absent)

lemma columnOf_absent: "name \<notin> set hdrs \<Longrightarrow> columnOf hdrs name = 0"
  by (simp add: columnOf_def indexOf_def)

lemma requiredIfBlank_absent:
  "name \<notin> set hdrs \<Longrightarrow>
   requiredIfBlank (rowDictOf hdrs rowData) hdrs name message =
     [\<lparr>field = name, column = 0, value = [], error = message, row = None\<rparr>]"
  by (simp add: requiredIfBlank_def getField_absent fieldError_def columnOf_absent)

text \<open>
  A header that is absent reads as the empty string. The billing-range rule, the
  quantity rule, the unit-cost rule and the reconciliation rule are skipped when a
  field they need is absent, and the type-conditional rule is skipped when
  \<open>LINE_ITEM_TYPE\<close> is absent.
\<close>

lemma rules_skipped_on_absent_fields:
  "''BILLING_START_DATE'' \<notin> set hdrs \<or> ''BILLING_END_DATE'' \<notin> set hdrs \<Longrightarrow>
     billingRangeErrors newDate (rowDictOf hdrs rowData) hdrs = []"
  "''LINE_ITEM_TYPE'' \<notin> set hdrs \<or> ''LINE_ITEM_NUMBER_OF_UNITS'' \<notin> set hdrs \<Longrightarrow>
     unitsErrors (rowDictOf hdrs rowData) hdrs = []"
  "''LINE_ITEM_TYPE'' \<notin> set hdrs \<or> ''LINE_ITEM_UNIT_COST'' \<notin> set hdrs \<Longrightarrow>
     unitCostErrors (rowDictOf hdrs rowData) hdrs = []"
  "''LINE_ITEM_NUMBER_OF_UNITS'' \<notin> set hdrs \<or> ''LINE_ITEM_UNIT_COST'' \<notin> set hdrs \<or>
   ''LINE_ITEM_TOTAL'' \<notin> set hdrs \<Longrightarrow>
     lineTotalErrors (rowDictOf hdrs rowData) hdrs = []"
  "''LINE_ITEM_TYPE'' \<notin> set hdrs \<Longrightarrow> requiredFieldErrors (rowDictOf hdrs rowData) hdrs = []"
  by (auto simp: billingRangeErrors_def unitsErrors_def unitCostErrors_def lineTotalErrors_def
      requiredFieldErrors_def Let_def getField_absent)

text \<open>
  Within the type-conditional rule an absent field is not skipped: it reads as empty
  and is reported as missing, with column 0 and an empty value.
\<close>

lemma absent_required_field_reported:
  "toUpperCase (getField (rowDictOf hdrs rowData) ''LINE_ITEM_TYPE'') = ''F'' \<Longrightarrow>
   name \<in> {''LINE_ITEM_TASK_CODE'', ''TIMEKEEPER_ID'', ''LINE_ITEM_DESCRIPTION''} \<Longrightarrow>
   name \<notin> set hdrs \<Longrightarrow>
   \<exists>message. \<lparr>field = name, column = 0, value = [], error = message, row = None\<rparr>
      \<in> set (validateCrossFieldRow newDate rowData hdrs)"
proof -
  assume a: "toUpperCase (getField (rowDictOf hdrs rowData) ''LINE_ITEM_TYPE'') = ''F''"
    "name \<in> {''LINE_ITEM_TASK_CODE'', ''TIMEKEEPER_ID'', ''LINE_ITEM_DESCRIPTION''}"
    "name \<notin> set hdrs"
  then have ne: "getField (rowDictOf hdrs rowData) ''LINE_ITEM_TYPE'' \<noteq> []"
    by (auto simp: toUpperCase_def)
  from a have "\<exists>message. \<lparr>field = name, column = 0, value = [], error = message, row = None\<rparr>
         \<in> set (requiredFieldErrors (rowDictOf hdrs rowData) hdrs)"
    unfolding requiredFieldErrors_def Let_def using ne
    by (auto simp: requiredIfBlank_absent)
  then show ?thesis by (auto simp: validateCrossFieldRow_def Let_def)
qed

text \<open>
  Claim C4. The cross-field rules are not all skipped when a field they need is absent
  from the headers. With \<open>LINE_ITEM_TYPE\<close> as the only header, a fee row is reported
  for the three absent fields, at column 0 although columns count from 1. With the
  headers \<open>LEDES_HEADERS\<close>, which contain neither \<open>TIMEKEEPER_ID\<close> nor
  \<open>LINE_ITEM_EXPENSE_CODE\<close>, a fee row that carries its task code and description is
  still reported for the timekeeper, and an expense row for the expense code.
\<close>

theorem validateCrossFieldRow_absent_fields:
  "validateCrossFieldRow newDate [''F''] [''LINE_ITEM_TYPE''] =
     [\<lparr>field = ''LINE_ITEM_TASK_CODE'', column = 0, value = [],
       error = ''Task code is required for fee line items (F)'', row = None\<rparr>,
      \<lparr>field = ''TIMEKEEPER_ID'', column = 0, value = [],
       error = ''Timekeeper ID is required for fee line items (F)'', row = None\<rparr>,
      \<lparr>field = ''LINE_ITEM_DESCRIPTION'', column = 0, value = [],
       error = ''Description is required for fee line items (F)'', row = None\<rparr>] \<and>
   validateCrossFieldRow newDate
     (map (\<lambda>h. if h = ''LINE_ITEM_TYPE'' then ''F''
                else if h = ''LINE_ITEM_TASK_CODE'' then ''L110''
                else if h = ''LINE_ITEM_DESCRIPTION'' then ''Research'' else [])
          LEDES_HEADERS)
     LEDES_HEADERS =
     [\<lparr>field = ''TIMEKEEPER_ID'', column = 0, value = [],
       error = ''Timekeeper ID is required for fee line items (F)'', row = None\<rparr>] \<and>
   validateCrossFieldRow newDate
     (map (\<lambda>h. if h = ''LINE_ITEM_TYPE'' then ''E'' else []) LEDES_HEADERS) LEDES_HEADERS =
     [\<lparr>field = ''LINE_ITEM_EXPENSE_CODE'', column = 0, value = [],
       error = ''Expense code is required for expense line items (E)'', row = None\<rparr>] \<and>
   ''TIMEKEEPER_ID'' \<notin> set LEDES_HEADERS \<and> ''LINE_ITEM_EXPENSE_CODE'' \<notin> set LEDES_HEADERS"
proof -
  let ?F = "map (\<lambda>h. if h = ''LINE_ITEM_TYPE'' then ''F''
                else if h = ''LINE_ITEM_TASK_CODE'' then ''L110''
                else if h = ''LINE_ITEM_DESCRIPTION'' then ''Research'' else [])
          LEDES_HEADERS"
  let ?E = "map (\<lambda>h. if h = ''LINE_ITEM_TYPE'' then ''E'' else []) LEDES_HEADERS"
  have nb: "getField (rowDictOf [''LINE_ITEM_TYPE''] [''F'']) ''BILLING_START_DATE'' = []"
    "getField (rowDictOf LEDES_HEADERS ?F) ''BILLING_START_DATE'' = []"
    "getField (rowDictOf LEDES_HEADERS ?E) ''BILLING_START_DATE'' = []"
    by code_simp+
  have "validateCrossFieldRow utcDate [''F''] [''LINE_ITEM_TYPE''] =
     [\<lparr>field = ''LINE_ITEM_TASK_CODE'', column = 0, value = [],
       error = ''Task code is required for fee line items (F)'', row = None\<rparr>,
      \<lparr>field = ''TIMEKEEPER_ID'', column = 0, value = [],
       error = ''Timekeeper ID is required for fee line items (F)'', row = None\<rparr>,
      \<lparr>field = ''LINE_ITEM_DESCRIPTION'', column = 0, value = [],
       error = ''Description is required for fee line items (F)'', row = None\<rparr>]"
    by code_simp
  moreover have "validateCrossFieldRow utcDate ?F LEDES_HEADERS =
     [\<lparr>field = ''TIMEKEEPER_ID'', column = 0, value = [],
       error = ''Timekeeper ID is required for fee line items (F)'', row = None\<rparr>]"
    by code_simp
  moreover have "validateCrossFieldRow utcDate ?E LEDES_HEADERS =
     [\<lparr>field = ''LINE_ITEM_EXPENSE_CODE'', column = 0, value = [],
       error = ''Expense code is required for expense line items (E)'', row = None\<rparr>]"
    by code_simp
  moreover have "''TIMEKEEPER_ID'' \<notin> set LEDES_HEADERS" "''LINE_ITEM_EXPENSE_CODE'' \<notin> set LEDES_HEADERS"
    by code_simp+
  ultimately show ?thesis
    unfolding validateCrossFieldRow_no_billing_start [OF nb(1), of newDate]
      validateCrossFieldRow_no_billing_start [OF nb(2), of newDate]
      validateCrossFieldRow_no_billing_start [OF nb(3), of newDate]
    by (intro conjI)
qed

lemma validateField_blank:
  "v = [] \<or> js_trim v = [] \<Longrightarrow> validateField newDate fieldName v = Inr (Tuple (True, []))"
  by (simp add: validateField_def)


text \<open>
  Claim C1. \<open>validateField\<close> returns pass for an empty or whitespace-only value before
  it looks the field up, so the "required" branches of \<open>validateRequiredDate\<close>,
  \<open>validateRequiredDecimal\<close> and \<open>validateRequiredText\<close> are never reached through
  it: the required fields pass when empty, although their validators, called directly,
  fail with a "required" message.
\<close>

theorem validateField_required_empty:
  "validateField newDate ''LINE_ITEM_DATE'' [] = Inr (Tuple (True, [])) \<and>
   validateField newDate ''LINE_ITEM_TOTAL'' '' '' = Inr (Tuple (True, [])) \<and>
   validateField newDate ''INVOICE_NET_TOTAL'' [] = Inr (Tuple (True, [])) \<and>
   validateField newDate ''LAW_FIRM_ID'' [] = Inr (Tuple (True, [])) \<and>
   validateField newDate ''CLIENT_TAX_ID'' '' '' = Inr (Tuple (True, [])) \<and>
   validateRequiredDate newDate [] = (False, ''Date is required'') \<and>
   validateRequiredDecimal '' '' = (False, ''Value is required'') \<and>
   validateRequiredText [] = (False, ''Field is required'')"
proof -
  have t: "js_trim '' '' = []" by code_simp
  show ?thesis
    by (simp add: validateField_def validateRequiredDate_def validateRequiredDecimal_def
        validateRequiredText_def t)
qed

lemma unitsErrors_emitted_iff:
  "unitsErrors d hdrs \<noteq> [] \<longleftrightarrow>
     getField d ''LINE_ITEM_TYPE'' \<noteq> [] \<and> getField d ''LINE_ITEM_NUMBER_OF_UNITS'' \<noteq> [] \<and>
     \<not> isAdjustmentType (getField d ''LINE_ITEM_TYPE'') \<and>
     (js_trim (getField d ''LINE_ITEM_NUMBER_OF_UNITS'') = [] \<or>
      parseFloat (getField d ''LINE_ITEM_NUMBER_OF_UNITS'') = Fin 0)"
  by (auto simp: unitsErrors_def Let_def)

lemma unitCostErrors_emitted_iff:
  "unitCostErrors d hdrs \<noteq> [] \<longleftrightarrow>
     getField d ''LINE_ITEM_TYPE'' \<noteq> [] \<and> getField d ''LINE_ITEM_UNIT_COST'' \<noteq> [] \<and>
     \<not> isAdjustmentType (getField d ''LINE_ITEM_TYPE'') \<and>
     (js_trim (getField d ''LINE_ITEM_UNIT_COST'') = [] \<or>
      parseFloat (stripNonNumeric (getField d ''LINE_ITEM_UNIT_COST'')) = Fin 0)"
  by (auto simp: unitCostErrors_def Let_def)

text \<open>
  Claim C5. The quantity rule is guarded by \<open>lineItemType && unitsField\<close>, so an empty
  \<open>LINE_ITEM_NUMBER_OF_UNITS\<close> on an expense row is not reported, although the rule's
  own condition and message name the empty case; a value of 0 is reported. The unit-cost
  rule behaves the same way, on the value stripped to digits, \<open>.\<close> and \<open>-\<close>.
\<close>

theorem validateCrossFieldRow_empty_units:
  "validateCrossFieldRow newDate [''E'', [], ''E101'']
     [''LINE_ITEM_TYPE'', ''LINE_ITEM_NUMBER_OF_UNITS'', ''LINE_ITEM_EXPENSE_CODE''] = [] \<and>
   validateCrossFieldRow newDate [''E'', ''0'', ''E101'']
     [''LINE_ITEM_TYPE'', ''LINE_ITEM_NUMBER_OF_UNITS'', ''LINE_ITEM_EXPENSE_CODE''] =
     [\<lparr>field = ''LINE_ITEM_NUMBER_OF_UNITS'', column = 2, value = ''0'',
       error = ''Units cannot be 0 or null for non-adjustment line items (F, E)'',
       row = None\<rparr>] \<and>
   validateCrossFieldRow newDate [''E'', [], ''E101'']
     [''LINE_ITEM_TYPE'', ''LINE_ITEM_UNIT_COST'', ''LINE_ITEM_EXPENSE_CODE''] = [] \<and>
   validateCrossFieldRow newDate [''E'', ''$0.00'', ''E101'']
     [''LINE_ITEM_TYPE'', ''LINE_ITEM_UNIT_COST'', ''LINE_ITEM_EXPENSE_CODE''] =
     [\<lparr>field = ''LINE_ITEM_UNIT_COST'', column = 2, value = ''$0.00'',
       error = ''Unit cost cannot be 0 or null for non-adjustment line items (F, E)'',
       row = None\<rparr>]"
proof -
  let ?U = "[''LINE_ITEM_TYPE'', ''LINE_ITEM_NUMBER_OF_UNITS'', ''LINE_ITEM_EXPENSE_CODE'']"
  let ?C = "[''LINE_ITEM_TYPE'', ''LINE_ITEM_UNIT_COST'', ''LINE_ITEM_EXPENSE_CODE'']"
  have nb: "getField (rowDictOf ?U [''E'', [], ''E101'']) ''BILLING_START_DATE'' = []"
    "getField (rowDictOf ?U [''E'', ''0'', ''E101'']) ''BILLING_START_DATE'' = []"
    "getField (rowDictOf ?C [''E'', [], ''E101'']) ''BILLING_START_DATE'' = []"
    "getField (rowDictOf ?C [''E'', ''$0.00'', ''E101'']) ''BILLING_START_DATE'' = []"
    by code_simp+
  have "validateCrossFieldRow utcDate [''E'', [], ''E101''] ?U = []"
    by code_simp
  moreover have "validateCrossFieldRow utcDate [''E'', ''0'', ''E101''] ?U =
     [\<lparr>field = ''LINE_ITEM_NUMBER_OF_UNITS'', column = 2, value = ''0'',
       error = ''Units cannot be 0 or null for non-adjustment line items (F, E)'',
       row = None\<rparr>]"
    by code_simp
  moreover have "validateCrossFieldRow utcDate [''E'', [], ''E101''] ?C = []"
    by code_simp
  moreover have "validateCrossFieldRow utcDate [''E'', ''$0.00'', ''E101''] ?C =
     [\<lparr>field = ''LINE_ITEM_UNIT_COST'', column = 2, value = ''$0.00'',
       error = ''Unit cost cannot be 0 or null for non-adjustment line items (F, E)'',
       row = None\<rparr>]"
    by code_simp
  ultimately show ?thesis
    unfolding validateCrossFieldRow_no_billing_start [OF nb(1), of newDate]
      validateCrossFieldRow_no_billing_start [OF nb(2), of newDate]
      validateCrossFieldRow_no_billing_start [OF nb(3), of newDate]
      validateCrossFieldRow_no_billing_start [OF nb(4), of newDate]
    by (intro conjI)
qed

section \<open>Properties of the dataset rules\<close>

lemma map_fst_pushOwn:
  "map fst (pushOwn d k v) = (if k \<in> fst ` set d then map fst d else map fst d @ [k])"
  by (induction d k v rule: pushOwn.induct) auto

lemma distinct_pushOwn: "distinct (map fst d) \<Longrightarrow> distinct (map fst (pushOwn d k v))"
  by (auto simp: map_fst_pushOwn)

lemma map_of_pushOwn:
  "map_of (pushOwn d k v) =
     (map_of d)(k \<mapsto> (case map_of d k of None \<Rightarrow> [v] | Some ws \<Rightarrow> ws @ [v]))"
  by (induction d k v rule: pushOwn.induct) (auto simp: fun_eq_iff)

lemma distinct_fold_pushOwn:
  "distinct (map fst d) \<Longrightarrow> distinct (map fst (fold (\<lambda>(k, v) d. pushOwn d k v) ps d))"
  by (induction ps arbitrary: d) (auto simp: distinct_pushOwn)

lemma map_of_fold_pushOwn:
  "map_of (fold (\<lambda>(k, v) d. pushOwn d k v) ps d) k =
     (case map_of d k of
        None \<Rightarrow> (if [v. (k', v) \<leftarrow> ps, k' = k] = [] then None
                 else Some [v. (k', v) \<leftarrow> ps, k' = k])
      | Some ws \<Rightarrow> Some (ws @ [v. (k', v) \<leftarrow> ps, k' = k]))"
proof (induction ps arbitrary: d)
  case Nil
  then show ?case by (simp split: option.split)
next
  case (Cons p ps)
  obtain k' v' where p: "p = (k', v')" by (cases p)
  show ?case
    by (simp add: p Cons.IH map_of_pushOwn split: option.split)
qed

lemma filter_key_distinct:
  "distinct (map fst d) \<Longrightarrow>
   filter (\<lambda>e. fst e = k) d = (case map_of d k of None \<Rightarrow> [] | Some x \<Rightarrow> [(k, x)])"
proof (induction d)
  case Nil
  then show ?case by simp
next
  case (Cons e d)
  obtain k' x' where e: "e = (k', x')" by (cases e)
  from Cons.prems e have nk: "k' \<notin> fst ` set d" by auto
  show ?case
  proof (cases "k' = k")
    case True
    with nk have "filter (\<lambda>e. fst e = k) d = []" by (auto simp: filter_empty_conv)
    with True e show ?thesis by simp
  next
    case False
    with Cons e show ?thesis by simp
  qed
qed

lemma filter_key_objectEntries:
  assumes "distinct (map fst d)"
  shows "filter (\<lambda>e. fst e = k) (objectEntries d) = filter (\<lambda>e. fst e = k) d"
proof -
  have a: "filter (\<lambda>e. fst e = k) (filter (\<lambda>(k, v). isArrayIndex k) d) =
           (if isArrayIndex k then filter (\<lambda>e. fst e = k) d else [])"
    by (auto simp: filter_empty_conv intro: filter_cong)
  have b: "filter (\<lambda>e. fst e = k) (filter (\<lambda>(k, v). \<not> isArrayIndex k) d) =
           (if isArrayIndex k then [] else filter (\<lambda>e. fst e = k) d)"
    by (auto simp: filter_empty_conv intro: filter_cong)
  have "length (filter (\<lambda>e. fst e = k) d) \<le> 1"
    by (simp add: filter_key_distinct [OF assms] split: option.split)
  then have s: "sort_key f (filter (\<lambda>e. fst e = k) d) = filter (\<lambda>e. fst e = k) d"
    for f :: "string \<times> 'a \<Rightarrow> int"
    by (cases "filter (\<lambda>e. fst e = k) d" rule: list.exhaust [case_product list.exhaust]) auto
  show ?thesis
    unfolding objectEntries_def filter_append filter_sort a b
    by (simp add: s)
qed

lemma objectPrototypeKeys_facts:
  "[] \<notin> set objectPrototypeKeys"
  "\<forall>k \<in> set objectPrototypeKeys. CHR ''|'' \<notin> set k"
  by code_simp+

lemma foldThrowing_Inr:
  "(\<And>x s. x \<in> set xs \<Longrightarrow> f x s = Inr (g x s)) \<Longrightarrow> foldThrowing f xs s = Inr (fold g xs s)"
  by (induction xs arbitrary: s) simp_all

lemma collectErrors_Inr:
  "(\<And>x. x \<in> set xs \<Longrightarrow> \<exists>ys. f x = Inr ys) \<Longrightarrow> \<exists>zs. collectErrors f xs = Inr zs"
proof (induction xs)
  case Nil
  then show ?case by simp
next
  case (Cons x xs)
  from Cons.prems [of x] obtain ys where ys: "f x = Inr ys" by auto
  from Cons.IH Cons.prems obtain zs where "collectErrors f xs = Inr zs" by auto
  with ys show ?case by simp
qed

lemma validateField_own_name:
  "fieldName \<notin> set objectPrototypeKeys \<Longrightarrow> \<exists>res. validateField newDate fieldName v = Inr (Tuple res)"
  by (auto simp: validateField_def split: option.split)

lemma validateRow_returns:
  assumes "set hdrs \<inter> set objectPrototypeKeys = {}"
  shows "\<exists>es. validateRow newDate rowData hdrs = Inr es"
  unfolding validateRow_def
proof (rule collectErrors_Inr)
  fix i
  assume "i \<in> set [0..<min (length hdrs) (length rowData)]"
  then have "hdrs ! i \<in> set hdrs" by simp
  with assms have "hdrs ! i \<notin> set objectPrototypeKeys" by auto
  from validateField_own_name [OF this, of newDate "rowData ! i"] obtain res where
    "validateField newDate (hdrs ! i) (rowData ! i) = Inr (Tuple res)" by blast
  then show "\<exists>ys. (let fieldName = hdrs ! i; v = rowData ! i
             in case validateField newDate fieldName v of
                  Inl e \<Rightarrow> Inl e
                | Inr (Tuple (isValid, errorMessage)) \<Rightarrow>
                    Inr (if \<not> isValid
                         then [\<lparr>field = fieldName, column = i + 1, value = v,
                                error = errorMessage, row = None\<rparr>]
                         else [])
                | Inr (Text s) \<Rightarrow> Inr []
                | Inr NotIterable \<Rightarrow> Inl TypeError) = Inr ys"
    by (cases res) (simp add: Let_def)
qed

text \<open>
  When no header is a name of \<open>objectPrototypeKeys\<close> and the three dataset checks
  return, \<open>validateDataset\<close> returns their errors in the order consistency, uniqueness,
  net total, whatever the time zone.
\<close>

lemma validateDataset_result:
  assumes "set hdrs \<inter> set objectPrototypeKeys = {}"
    and "validateInvoiceTotalsConsistency dataset hdrs = Inr c"
    and "validateUniqueLineItemNumbers dataset hdrs = Inr u"
    and "validateInvoiceNetTotalCalculation dataset hdrs = Inr n"
  shows "\<exists>rowErrors. validateDataset newDate dataset hdrs =
           Inr \<lparr>row_errors = rowErrors, dataset_errors = c @ u @ n\<rparr>"
proof -
  have "\<exists>zs. collectErrors (\<lambda>(rowIndex, rowData).
          andThen (validateRow newDate rowData hdrs)
            (\<lambda>fieldErrors.
               Inr (map (\<lambda>e. e\<lparr>row := Some (rowIndex + 1)\<rparr>) fieldErrors @
                    map (\<lambda>e. e\<lparr>row := Some (rowIndex + 1)\<rparr>)
                        (validateCrossFieldRow newDate rowData hdrs))))
          (enumerate 0 dataset) = Inr zs"
  proof (rule collectErrors_Inr)
    fix x :: "nat \<times> string list"
    obtain rowIndex rowData where x: "x = (rowIndex, rowData)" by (cases x)
    from validateRow_returns [OF assms(1), of newDate rowData] obtain es where
      "validateRow newDate rowData hdrs = Inr es" by blast
    then show "\<exists>ys. (case x of (rowIndex, rowData) \<Rightarrow>
          andThen (validateRow newDate rowData hdrs)
            (\<lambda>fieldErrors.
               Inr (map (\<lambda>e. e\<lparr>row := Some (rowIndex + 1)\<rparr>) fieldErrors @
                    map (\<lambda>e. e\<lparr>row := Some (rowIndex + 1)\<rparr>)
                        (validateCrossFieldRow newDate rowData hdrs)))) = Inr ys"
      by (simp add: x andThen_def)
  qed
  then obtain zs where "collectErrors (\<lambda>(rowIndex, rowData).
          andThen (validateRow newDate rowData hdrs)
            (\<lambda>fieldErrors.
               Inr (map (\<lambda>e. e\<lparr>row := Some (rowIndex + 1)\<rparr>) fieldErrors @
                    map (\<lambda>e. e\<lparr>row := Some (rowIndex + 1)\<rparr>)
                        (validateCrossFieldRow newDate rowData hdrs))))
          (enumerate 0 dataset) = Inr zs" by blast
  then have "validateDataset newDate dataset hdrs = Inr \<lparr>row_errors = zs, dataset_errors = c @ u @ n\<rparr>"
    unfolding validateDataset_def by (simp add: andThen_def assms(2-4))
  then show ?thesis by blast
qed

lemma elemAt_own:
  "set rowData \<inter> set objectPrototypeKeys = {} \<Longrightarrow> elemAt rowData i \<notin> set objectPrototypeKeys"
  using objectPrototypeKeys_facts(1) nth_mem [of i rowData] by (auto simp: elemAt_def disjoint_iff)

lemma fold_assignKey_lookup:
  "(\<And>i. f i \<in> S) \<Longrightarrow> (\<And>v. m name = Some v \<Longrightarrow> v \<in> S) \<Longrightarrow>
   fold (\<lambda>(i, header) rw. assignKey rw header (f i)) (enumerate n hs) m name = Some w \<Longrightarrow> w \<in> S"
proof (induction hs arbitrary: n m)
  case Nil
  then show ?case by simp
next
  case (Cons h hs)
  have "v \<in> S" if "assignKey m h (f n) name = Some v" for v
    using that Cons.prems(1,2) by (auto simp: assignKey_def split: if_splits)
  with Cons.IH [of "assignKey m h (f n)" "Suc n"] Cons.prems(1,3) show ?case by simp
qed

lemma getField_cell:
  "getField (rowDictOf hdrs rowData) name \<in> insert [] (set rowData)"
proof (cases "rowDictOf hdrs rowData name")
  case None
  then show ?thesis by (simp add: getField_def)
next
  case (Some w)
  have "elemAt rowData i \<in> insert [] (set rowData)" for i by (simp add: elemAt_def)
  from fold_assignKey_lookup [of "elemAt rowData" "insert [] (set rowData)" Map.empty name 0 hdrs w,
      OF this] Some
  have "w \<in> insert [] (set rowData)" by (simp add: rowDictOf_def)
  with Some show ?thesis by (simp add: getField_def)
qed

lemma invoiceKey_own:
  assumes "set rowData \<inter> set objectPrototypeKeys = {}"
  shows "invoiceKeyOf hdrs (rowDictOf hdrs rowData) \<notin> set objectPrototypeKeys"
proof (cases "map (getField (rowDictOf hdrs rowData)) (availableIdentifiers hdrs)")
  case Nil
  then show ?thesis using objectPrototypeKeys_facts(1) by (simp add: invoiceKeyOf_def)
next
  case (Cons x xs)
  show ?thesis
  proof (cases xs)
    case Nil
    from Cons Nil obtain name where "x = getField (rowDictOf hdrs rowData) name" by auto
    with getField_cell [of hdrs rowData name] assms objectPrototypeKeys_facts(1)
    have "x \<notin> set objectPrototypeKeys" by auto
    with Cons Nil show ?thesis by (simp add: invoiceKeyOf_def)
  next
    case (Cons y ys)
    with \<open>map (getField (rowDictOf hdrs rowData)) (availableIdentifiers hdrs) = x # xs\<close>
    have "2 \<le> length (map (getField (rowDictOf hdrs rowData)) (availableIdentifiers hdrs))"
      by simp
    from sep_in_js_join [OF this, of "''|''"]
    have "CHR ''|'' \<in> set (invoiceKeyOf hdrs (rowDictOf hdrs rowData))"
      by (simp add: invoiceKeyOf_def)
    with objectPrototypeKeys_facts(2) show ?thesis by blast
  qed
qed

lemma groupLineItemNumbers_own:
  assumes "\<forall>r \<in> set dataset. set r \<inter> set objectPrototypeKeys = {}"
  shows "groupLineItemNumbers idx dataset =
     Inr (fold (\<lambda>(rowIndex, rowData) lineItemNumbers.
             let lineItemNumber = elemAt rowData idx
             in if lineItemNumber \<noteq> [] \<and> js_trim lineItemNumber \<noteq> []
                then pushOwn lineItemNumbers lineItemNumber (rowIndex + 1)
                else lineItemNumbers) (enumerate 0 dataset) [])"
  unfolding groupLineItemNumbers_def
proof (rule foldThrowing_Inr)
  fix x :: "nat \<times> string list" and s :: "(string \<times> nat list) list"
  assume x: "x \<in> set (enumerate 0 dataset)"
  obtain rowIndex rowData where p: "x = (rowIndex, rowData)" by (cases x)
  with x have "rowData \<in> set dataset" by (auto simp: in_set_enumerate_eq)
  with assms have "elemAt rowData idx \<notin> set objectPrototypeKeys" by (simp add: elemAt_own)
  then show "(case x of (rowIndex, rowData) \<Rightarrow> \<lambda>lineItemNumbers.
             let lineItemNumber = elemAt rowData idx
             in if lineItemNumber \<noteq> [] \<and> js_trim lineItemNumber \<noteq> []
                then dictPush lineItemNumbers lineItemNumber (rowIndex + 1)
                else Inr lineItemNumbers) s =
         Inr ((case x of (rowIndex, rowData) \<Rightarrow> \<lambda>lineItemNumbers.
             let lineItemNumber = elemAt rowData idx
             in if lineItemNumber \<noteq> [] \<and> js_trim lineItemNumber \<noteq> []
                then pushOwn lineItemNumbers lineItemNumber (rowIndex + 1)
                else lineItemNumbers) s)"
    by (simp add: p Let_def dictPush_def)
qed

lemma groupInvoiceTotals_own:
  assumes "\<forall>r \<in> set dataset. set r \<inter> set objectPrototypeKeys = {}"
  shows "\<exists>invoices. groupInvoiceTotals hdrs dataset = Inr invoices"
proof -
  have "groupInvoiceTotals hdrs dataset =
     Inr (fold (\<lambda>(rowIndex, rowData) invoices.
             let rowDict = rowDictOf hdrs rowData
             in pushOwn invoices (invoiceKeyOf hdrs rowDict)
                  (rowIndex, getField rowDict ''INVOICE_TOTAL'')) (enumerate 0 dataset) [])"
    unfolding groupInvoiceTotals_def
  proof (rule foldThrowing_Inr)
    fix x :: "nat \<times> string list" and s :: "(string \<times> (nat \<times> string) list) list"
    assume x: "x \<in> set (enumerate 0 dataset)"
    obtain rowIndex rowData where p: "x = (rowIndex, rowData)" by (cases x)
    with x have "rowData \<in> set dataset" by (auto simp: in_set_enumerate_eq)
    with assms have "invoiceKeyOf hdrs (rowDictOf hdrs rowData) \<notin> set objectPrototypeKeys"
      by (simp add: invoiceKey_own)
    then show "(case x of (rowIndex, rowData) \<Rightarrow> \<lambda>invoices.
             let rowDict = rowDictOf hdrs rowData
             in dictPush invoices (invoiceKeyOf hdrs rowDict)
                  (rowIndex, getField rowDict ''INVOICE_TOTAL'')) s =
         Inr ((case x of (rowIndex, rowData) \<Rightarrow> \<lambda>invoices.
             let rowDict = rowDictOf hdrs rowData
             in pushOwn invoices (invoiceKeyOf hdrs rowDict)
                  (rowIndex, getField rowDict ''INVOICE_TOTAL'')) s)"
      by (simp add: p Let_def dictPush_def)
  qed
  then show ?thesis by blast
qed

lemma groupNetTotals_own:
  assumes "\<forall>r \<in> set dataset. set r \<inter> set objectPrototypeKeys = {}"
  shows "\<exists>invoices. groupNetTotals hdrs dataset = Inr invoices"
proof -
  have "groupNetTotals hdrs dataset =
     Inr (fold (\<lambda>(rowIndex, rowData) invoices.
             let rowDict = rowDictOf hdrs rowData
             in pushOwn invoices (invoiceKeyOf hdrs rowDict)
                  (rowIndex, getField rowDict ''INVOICE_NET_TOTAL'',
                   getField rowDict ''LINE_ITEM_TOTAL'')) (enumerate 0 dataset) [])"
    unfolding groupNetTotals_def
  proof (rule foldThrowing_Inr)
    fix x :: "nat \<times> string list" and s :: "(string \<times> (nat \<times> string \<times> string) list) list"
    assume x: "x \<in> set (enumerate 0 dataset)"
    obtain rowIndex rowData where p: "x = (rowIndex, rowData)" by (cases x)
    with x have "rowData \<in> set dataset" by (auto simp: in_set_enumerate_eq)
    with assms have "invoiceKeyOf hdrs (rowDictOf hdrs rowData) \<notin> set objectPrototypeKeys"
      by (simp add: invoiceKey_own)
    then show "(case x of (rowIndex, rowData) \<Rightarrow> \<lambda>invoices.
             let rowDict = rowDictOf hdrs rowData
             in dictPush invoices (invoiceKeyOf hdrs rowDict)
                  (rowIndex, getField rowDict ''INVOICE_NET_TOTAL'',
                   getField rowDict ''LINE_ITEM_TOTAL'')) s =
         Inr ((case x of (rowIndex, rowData) \<Rightarrow> \<lambda>invoices.
             let rowDict = rowDictOf hdrs rowData
             in pushOwn invoices (invoiceKeyOf hdrs rowDict)
                  (rowIndex, getField rowDict ''INVOICE_NET_TOTAL'',
                   getField rowDict ''LINE_ITEM_TOTAL'')) s)"
      by (simp add: p Let_def dictPush_def)
  qed
  then show ?thesis by blast
qed

lemma consistency_returns:
  assumes "\<forall>r \<in> set dataset. set r \<inter> set objectPrototypeKeys = {}"
  shows "\<exists>c. validateInvoiceTotalsConsistency dataset hdrs = Inr c \<and>
             (\<forall>e \<in> set c. type e = ''invoice_consistency'')"
proof -
  from groupInvoiceTotals_own [OF assms, of hdrs] obtain invoices where
    "groupInvoiceTotals hdrs dataset = Inr invoices" by blast
  then show ?thesis
    by (auto simp: validateInvoiceTotalsConsistency_def andThen_def consistencyError_def Let_def
        split: if_splits prod.splits)
qed

lemma netTotal_returns:
  assumes "\<forall>r \<in> set dataset. set r \<inter> set objectPrototypeKeys = {}"
  shows "\<exists>n. validateInvoiceNetTotalCalculation dataset hdrs = Inr n \<and>
             (\<forall>e \<in> set n. type e = ''invoice_net_total_calculation'')"
proof -
  from groupNetTotals_own [OF assms, of hdrs] obtain invoices where
    "groupNetTotals hdrs dataset = Inr invoices" by blast
  then show ?thesis
    by (auto simp: validateInvoiceNetTotalCalculation_def andThen_def netTotalError_def Let_def
        split: if_splits prod.splits list.splits)
qed

lemma groupLineItemNumbers_pushes:
  "fold (\<lambda>(rowIndex, rowData) lineItemNumbers.
             let lineItemNumber = elemAt rowData idx
             in if lineItemNumber \<noteq> [] \<and> js_trim lineItemNumber \<noteq> []
                then pushOwn lineItemNumbers lineItemNumber (rowIndex + 1)
                else lineItemNumbers) (enumerate n dataset) d =
   fold (\<lambda>(k, v) d. pushOwn d k v)
     [(elemAt r idx, i + 1). (i, r) \<leftarrow> enumerate n dataset, js_trim (elemAt r idx) \<noteq> []] d"
proof (induction dataset arbitrary: n d)
  case Nil
  then show ?case by simp
next
  case (Cons r dataset)
  have "js_trim [] = []" by (simp add: js_trim_def)
  then have "js_trim (elemAt r idx) \<noteq> [] \<Longrightarrow> elemAt r idx \<noteq> []" by auto
  with Cons show ?case by (auto simp: Let_def)
qed

lemma pushes_for_key:
  "[v. (k', v) \<leftarrow> [(elemAt r idx, i + 1). (i, r) \<leftarrow> enumerate n dataset, js_trim (elemAt r idx) \<noteq> []],
       k' = k] =
   (if js_trim k \<noteq> [] then [i + 1. (i, r) \<leftarrow> enumerate n dataset, elemAt r idx = k] else [])"
  by (induction dataset arbitrary: n) auto

lemma filter_uniquenessError:
  "filter (\<lambda>e. invoice_identifier e = ''LINE_ITEM_NUMBER='' @ k) (concat (map uniquenessError es)) =
   concat (map uniquenessError (filter (\<lambda>e. fst e = k) es))"
  by (induction es) (auto simp: uniquenessError_def)

lemma uniqueness_returns:
  assumes "indexOf hdrs ''LINE_ITEM_NUMBER'' = Some idx"
    and "\<forall>r \<in> set dataset. set r \<inter> set objectPrototypeKeys = {}"
  shows "\<exists>us. validateUniqueLineItemNumbers dataset hdrs = Inr us \<and>
           (\<forall>e \<in> set us. type e = ''line_item_uniqueness'' \<and>
                          (\<exists>w. invoice_identifier e = ''LINE_ITEM_NUMBER='' @ w)) \<and>
           (\<forall>k. filter (\<lambda>e. invoice_identifier e = ''LINE_ITEM_NUMBER='' @ k) us =
              (let occurrences = [i + 1. (i, r) \<leftarrow> enumerate 0 dataset, elemAt r idx = k] in
               if js_trim k \<noteq> [] \<and> 1 < length occurrences
               then [\<lparr>type = ''line_item_uniqueness'',
                      invoice_identifier = ''LINE_ITEM_NUMBER='' @ k,
                      error = ''Line item number '' @ k @ '' is not unique'',
                      affected_rows = occurrences\<rparr>]
               else []))"
proof -
  define ps where "ps = [(elemAt r idx, i + 1). (i, r) \<leftarrow> enumerate 0 dataset, js_trim (elemAt r idx) \<noteq> []]"
  define d where "d = fold (\<lambda>(k, v) d. pushOwn d k v) ps []"
  define us where "us = concat (map uniquenessError (objectEntries d))"
  have g: "groupLineItemNumbers idx dataset = Inr d"
    unfolding groupLineItemNumbers_own [OF assms(2)] d_def ps_def
    by (simp only: groupLineItemNumbers_pushes)
  have v: "validateUniqueLineItemNumbers dataset hdrs = Inr us"
    by (simp add: validateUniqueLineItemNumbers_def assms(1) g andThen_def us_def)
  have ty: "\<forall>e \<in> set us. type e = ''line_item_uniqueness'' \<and>
                          (\<exists>w. invoice_identifier e = ''LINE_ITEM_NUMBER='' @ w)"
    by (auto simp: us_def uniquenessError_def split: if_splits prod.splits)
  have dist: "distinct (map fst d)" unfolding d_def by (rule distinct_fold_pushOwn) simp
  have "filter (\<lambda>e. invoice_identifier e = ''LINE_ITEM_NUMBER='' @ k) us =
              (let occurrences = [i + 1. (i, r) \<leftarrow> enumerate 0 dataset, elemAt r idx = k] in
               if js_trim k \<noteq> [] \<and> 1 < length occurrences
               then [\<lparr>type = ''line_item_uniqueness'',
                      invoice_identifier = ''LINE_ITEM_NUMBER='' @ k,
                      error = ''Line item number '' @ k @ '' is not unique'',
                      affected_rows = occurrences\<rparr>]
               else [])" for k
  proof -
    define occ where "occ = [i + 1. (i, r) \<leftarrow> enumerate 0 dataset, elemAt r idx = k]"
    have m: "map_of d k = (if js_trim k \<noteq> [] \<and> occ \<noteq> [] then Some occ else None)"
      unfolding d_def ps_def map_of_fold_pushOwn pushes_for_key occ_def by simp
    have "filter (\<lambda>e. invoice_identifier e = ''LINE_ITEM_NUMBER='' @ k) us =
          concat (map uniquenessError (filter (\<lambda>e. fst e = k) d))"
      by (simp only: us_def filter_uniquenessError filter_key_objectEntries [OF dist])
    also have "\<dots> = concat (map uniquenessError (case map_of d k of None \<Rightarrow> [] | Some x \<Rightarrow> [(k, x)]))"
      by (simp only: filter_key_distinct [OF dist])
    finally have f: "filter (\<lambda>e. invoice_identifier e = ''LINE_ITEM_NUMBER='' @ k) us =
          concat (map uniquenessError (case map_of d k of None \<Rightarrow> [] | Some x \<Rightarrow> [(k, x)]))" .
    show ?thesis
      unfolding f m Let_def occ_def [symmetric]
      by (cases occ) (simp_all add: uniquenessError_def)
  qed
  with v ty show ?thesis by blast
qed

lemma filter_none: "(\<And>e. e \<in> set xs \<Longrightarrow> \<not> P e) \<Longrightarrow> filter P xs = []"
  by (auto simp: filter_empty_conv)

lemma filter_all: "(\<And>e. e \<in> set xs \<Longrightarrow> P e) \<Longrightarrow> filter P xs = xs"
  by (auto simp: filter_id_conv)


text \<open>
  Claim C8 (as amended). Take a dataset in which no header and no cell is one of the
  names of \<open>objectPrototypeKeys\<close>. When the headers contain \<open>LINE_ITEM_NUMBER\<close>,
  \<open>validateDataset\<close> returns, and every value of that column that is not empty or
  whitespace-only and stands on more than one row yields exactly one
  \<open>line_item_uniqueness\<close> error, which names the value and lists the 1-based numbers of
  all its rows in ascending order; a value on at most one row, and a whitespace-only
  value, yields none; and every such error is the error of some value. Invoice
  grouping plays no part.
\<close>

theorem validateDataset_line_item_uniqueness:
  assumes "indexOf hdrs ''LINE_ITEM_NUMBER'' = Some idx"
    and "set hdrs \<inter> set objectPrototypeKeys = {}"
    and "\<forall>r \<in> set dataset. set r \<inter> set objectPrototypeKeys = {}"
  shows "\<exists>res. validateDataset newDate dataset hdrs = Inr res \<and>
           (\<forall>v. filter (\<lambda>e. invoice_identifier e = ''LINE_ITEM_NUMBER='' @ v)
                  (filter (\<lambda>e. type e = ''line_item_uniqueness'') (dataset_errors res)) =
                (let occurrences = [i + 1. (i, r) \<leftarrow> enumerate 0 dataset, elemAt r idx = v] in
                 if js_trim v \<noteq> [] \<and> 1 < length occurrences
                 then [\<lparr>type = ''line_item_uniqueness'',
                        invoice_identifier = ''LINE_ITEM_NUMBER='' @ v,
                        error = ''Line item number '' @ v @ '' is not unique'',
                        affected_rows = occurrences\<rparr>]
                 else [])) \<and>
           (\<forall>e \<in> set (filter (\<lambda>e. type e = ''line_item_uniqueness'') (dataset_errors res)).
              \<exists>w. invoice_identifier e = ''LINE_ITEM_NUMBER='' @ w)"
proof -
  from consistency_returns [OF assms(3), of hdrs] obtain c where
    c: "validateInvoiceTotalsConsistency dataset hdrs = Inr c"
      "\<forall>e \<in> set c. type e = ''invoice_consistency''" by blast
  from netTotal_returns [OF assms(3), of hdrs] obtain n where
    n: "validateInvoiceNetTotalCalculation dataset hdrs = Inr n"
      "\<forall>e \<in> set n. type e = ''invoice_net_total_calculation''" by blast
  from uniqueness_returns [OF assms(1,3)] obtain us where
    u: "validateUniqueLineItemNumbers dataset hdrs = Inr us"
      "\<forall>e \<in> set us. type e = ''line_item_uniqueness'' \<and>
                     (\<exists>w. invoice_identifier e = ''LINE_ITEM_NUMBER='' @ w)"
      "\<forall>k. filter (\<lambda>e. invoice_identifier e = ''LINE_ITEM_NUMBER='' @ k) us =
              (let occurrences = [i + 1. (i, r) \<leftarrow> enumerate 0 dataset, elemAt r idx = k] in
               if js_trim k \<noteq> [] \<and> 1 < length occurrences
               then [\<lparr>type = ''line_item_uniqueness'',
                      invoice_identifier = ''LINE_ITEM_NUMBER='' @ k,
                      error = ''Line item number '' @ k @ '' is not unique'',
                      affected_rows = occurrences\<rparr>]
               else [])" by blast
  from validateDataset_result [OF assms(2) c(1) u(1) n(1), of newDate] obtain rowErrors where
    r: "validateDataset newDate dataset hdrs =
          Inr \<lparr>row_errors = rowErrors, dataset_errors = c @ us @ n\<rparr>" by blast
  have "filter (\<lambda>e. type e = ''line_item_uniqueness'') c = []"
    using c(2) by (intro filter_none) auto
  moreover have "filter (\<lambda>e. type e = ''line_item_uniqueness'') n = []"
    using n(2) by (intro filter_none) auto
  moreover have "filter (\<lambda>e. type e = ''line_item_uniqueness'') us = us"
    using u(2) by (intro filter_all) auto
  ultimately have f: "filter (\<lambda>e. type e = ''line_item_uniqueness'') (c @ us @ n) = us" by simp
  show ?thesis
  proof (intro exI conjI)
    show "validateDataset newDate dataset hdrs =
          Inr \<lparr>row_errors = rowErrors, dataset_errors = c @ us @ n\<rparr>" by (rule r)
  next
    show "\<forall>v. filter (\<lambda>e. invoice_identifier e = ''LINE_ITEM_NUMBER='' @ v)
                  (filter (\<lambda>e. type e = ''line_item_uniqueness'')
                     (dataset_errors \<lparr>row_errors = rowErrors, dataset_errors = c @ us @ n\<rparr>)) =
                (let occurrences = [i + 1. (i, r) \<leftarrow> enumerate 0 dataset, elemAt r idx = v] in
                 if js_trim v \<noteq> [] \<and> 1 < length occurrences
                 then [\<lparr>type = ''line_item_uniqueness'',
                        invoice_identifier = ''LINE_ITEM_NUMBER='' @ v,
                        error = ''Line item number '' @ v @ '' is not unique'',
                        affected_rows = occurrences\<rparr>]
                 else [])"
      unfolding ValidationResult.simps f by (rule u(3))
  next
    show "\<forall>e \<in> set (filter (\<lambda>e. type e = ''line_item_uniqueness'')
                       (dataset_errors \<lparr>row_errors = rowErrors, dataset_errors = c @ us @ n\<rparr>)).
              \<exists>w. invoice_identifier e = ''LINE_ITEM_NUMBER='' @ w"
      unfolding ValidationResult.simps f using u(2) by blast
  qed
qed

text \<open>Rows 1 and 3 share the number 5.\<close>

theorem validateDataset_line_item_uniqueness_witness:
  "\<exists>res. validateDataset utcDate [[''A'', ''5''], [''B'', ''7''], [''C'', ''5'']]
            [''INVOICE_NUMBER'', ''LINE_ITEM_NUMBER''] = Inr res \<and>
     filter (\<lambda>e. invoice_identifier e = ''LINE_ITEM_NUMBER='' @ ''5'')
       (filter (\<lambda>e. type e = ''line_item_uniqueness'') (dataset_errors res)) =
     [\<lparr>type = ''line_item_uniqueness'', invoice_identifier = ''LINE_ITEM_NUMBER=5'',
       error = ''Line item number 5 is not unique'', affected_rows = [1, 3]\<rparr>]"
proof -
  let ?H = "[''INVOICE_NUMBER'', ''LINE_ITEM_NUMBER'']"
  let ?D = "[[''A'', ''5''], [''B'', ''7''], [''C'', ''5'']]"
  have h: "indexOf ?H ''LINE_ITEM_NUMBER'' = Some 1"
    by code_simp
  have a: "set ?H \<inter> set objectPrototypeKeys = {}"
    by (simp add: objectPrototypeKeys_def)
  have b: "\<forall>r \<in> set ?D. set r \<inter> set objectPrototypeKeys = {}"
    by (simp add: objectPrototypeKeys_def)
  have o: "[i + 1. (i, r) \<leftarrow> enumerate 0 ?D, elemAt r 1 = ''5''] = [1, 3]"
    by code_simp
  have t: "js_trim ''5'' \<noteq> []" by code_simp
  from validateDataset_line_item_uniqueness [OF h a b, of utcDate] obtain res where
    r: "validateDataset utcDate ?D ?H = Inr res"
    and f: "\<forall>v. filter (\<lambda>e. invoice_identifier e = ''LINE_ITEM_NUMBER='' @ v)
                  (filter (\<lambda>e. type e = ''line_item_uniqueness'') (dataset_errors res)) =
                (let occurrences = [i + 1. (i, r) \<leftarrow> enumerate 0 ?D, elemAt r 1 = v] in
                 if js_trim v \<noteq> [] \<and> 1 < length occurrences
                 then [\<lparr>type = ''line_item_uniqueness'',
                        invoice_identifier = ''LINE_ITEM_NUMBER='' @ v,
                        error = ''Line item number '' @ v @ '' is not unique'',
                        affected_rows = occurrences\<rparr>]
                 else [])"
    by blast
  from f [THEN spec, of "''5''"] have
    "filter (\<lambda>e. invoice_identifier e = ''LINE_ITEM_NUMBER='' @ ''5'')
       (filter (\<lambda>e. type e = ''line_item_uniqueness'') (dataset_errors res)) =
     [\<lparr>type = ''line_item_uniqueness'', invoice_identifier = ''LINE_ITEM_NUMBER=5'',
       error = ''Line item number 5 is not unique'', affected_rows = [1, 3]\<rparr>]"
    unfolding o Let_def using t by simp
  with r show ?thesis by blast
qed

text \<open>
  The claim as stated fails for a value that is not empty but blank: two rows with the
  number \<open>'' ''\<close> yield no error.
\<close>

theorem validateDataset_line_item_uniqueness_counterexample:
  "validateDataset utcDate [['' ''], ['' '']] [''LINE_ITEM_NUMBER''] =
     Inr \<lparr>row_errors = [], dataset_errors = []\<rparr>"
  by code_simp

text \<open>
  Claim C7. The distinct totals of an inconsistent invoice are put in order by
  \<open>Array.prototype.sort()\<close> with no comparator, which compares the numbers as strings:
  the totals 100 and 20 are listed as "100, 20", not in ascending numeric order. (The
  totals 100.00 and 150.00 are listed as "100, 150", in one error for rows 1 and 2.)
\<close>

theorem validateDataset_inconsistent_totals_order:
  "(\<exists>rowErrors. validateDataset newDate [[''A'', ''100''], [''A'', ''20'']]
       [''INVOICE_NUMBER'', ''INVOICE_TOTAL''] =
     Inr \<lparr>row_errors = rowErrors,
          dataset_errors =
            [\<lparr>type = ''invoice_consistency'', invoice_identifier = ''INVOICE_NUMBER=A'',
              error = ''Invoice has inconsistent totals: 100, 20'', affected_rows = [1, 2]\<rparr>]\<rparr>) \<and>
   (\<exists>rowErrors. validateDataset newDate
       [[''20240101'', ''Firm'', ''Client'', ''INV1'', ''100.00''],
        [''20240101'', ''Firm'', ''Client'', ''INV1'', ''150.00'']]
       [''INVOICE_DATE'', ''LAW_FIRM_NAME'', ''CLIENT_NAME'', ''INVOICE_NUMBER'', ''INVOICE_TOTAL''] =
     Inr \<lparr>row_errors = rowErrors,
          dataset_errors =
            [\<lparr>type = ''invoice_consistency'',
              invoice_identifier =
                ''INVOICE_DATE=20240101, LAW_FIRM_NAME=Firm, CLIENT_NAME=Client, INVOICE_NUMBER=INV1'',
              error = ''Invoice has inconsistent totals: 100, 150'', affected_rows = [1, 2]\<rparr>]\<rparr>) \<and>
   validateDataset utcDate [[''A'', ''100''], [''A'', ''20'']]
       [''INVOICE_NUMBER'', ''INVOICE_TOTAL''] =
     Inr \<lparr>row_errors = [],
          dataset_errors =
            [\<lparr>type = ''invoice_consistency'', invoice_identifier = ''INVOICE_NUMBER=A'',
              error = ''Invoice has inconsistent totals: 100, 20'', affected_rows = [1, 2]\<rparr>]\<rparr>"
proof -
  let ?H1 = "[''INVOICE_NUMBER'', ''INVOICE_TOTAL'']"
  let ?D1 = "[[''A'', ''100''], [''A'', ''20'']]"
  let ?H2 = "[''INVOICE_DATE'', ''LAW_FIRM_NAME'', ''CLIENT_NAME'', ''INVOICE_NUMBER'', ''INVOICE_TOTAL'']"
  let ?D2 = "[[''20240101'', ''Firm'', ''Client'', ''INV1'', ''100.00''],
        [''20240101'', ''Firm'', ''Client'', ''INV1'', ''150.00'']]"
  have h: "set ?H1 \<inter> set objectPrototypeKeys = {}" "set ?H2 \<inter> set objectPrototypeKeys = {}"
    by (simp_all add: objectPrototypeKeys_def)
  have c1: "validateInvoiceTotalsConsistency ?D1 ?H1 =
      Inr [\<lparr>type = ''invoice_consistency'', invoice_identifier = ''INVOICE_NUMBER=A'',
              error = ''Invoice has inconsistent totals: 100, 20'', affected_rows = [1, 2]\<rparr>]"
    and u1: "validateUniqueLineItemNumbers ?D1 ?H1 = Inr []"
    and n1: "validateInvoiceNetTotalCalculation ?D1 ?H1 = Inr []"
    by code_simp+
  have c2: "validateInvoiceTotalsConsistency ?D2 ?H2 =
      Inr [\<lparr>type = ''invoice_consistency'',
              invoice_identifier =
                ''INVOICE_DATE=20240101, LAW_FIRM_NAME=Firm, CLIENT_NAME=Client, INVOICE_NUMBER=INV1'',
              error = ''Invoice has inconsistent totals: 100, 150'', affected_rows = [1, 2]\<rparr>]"
    and u2: "validateUniqueLineItemNumbers ?D2 ?H2 = Inr []"
    and n2: "validateInvoiceNetTotalCalculation ?D2 ?H2 = Inr []"
    by code_simp+
  have e: "validateDataset utcDate ?D1 ?H1 =
     Inr \<lparr>row_errors = [],
          dataset_errors =
            [\<lparr>type = ''invoice_consistency'', invoice_identifier = ''INVOICE_NUMBER=A'',
              error = ''Invoice has inconsistent totals: 100, 20'', affected_rows = [1, 2]\<rparr>]\<rparr>"
    by code_simp
  from validateDataset_result [OF h(1) c1 u1 n1, of newDate]
    validateDataset_result [OF h(2) c2 u2 n2, of newDate] e
  show ?thesis by simp
qed








end
